theory Spec2Isabelle
  imports Complex_Main
begin

section \<open>Rate limiter (class RateLimiter)\<close>

text \<open>
  JavaScript numbers that hold counters and millisecond timestamps are modelled as
  \<^typ>\<open>int\<close>: the code only adds small integers to them, far below \<open>2^53\<close>.
  \<open>Date.now()\<close> is passed to every method as the argument \<open>now\<close>.
\<close>

record RateLimitEntry =
  count :: int
  resetTime :: int
  burstCount :: int
  burstResetTime :: int

record RateLimitConfig =
  perMinute :: int
  perHour :: int
  burstLimit :: int
  burstWindow :: int

text \<open>
  The object returned by \<open>checkRateLimit\<close>; its optional fields \<open>error\<close>,
  \<open>resetTime\<close> and \<open>remaining\<close> are options. The returned \<open>resetTime\<close> is named
  \<open>resultResetTime\<close> here, the entry's field keeps the name.
\<close>

record RateLimitResult =
  allowed :: bool
  error :: "string option"
  resultResetTime :: "int option"
  remaining :: "int option"

text \<open>The private \<open>store\<close>, a \<open>Map<string, RateLimitEntry>\<close>.\<close>

type_synonym store = "string \<rightharpoonup> RateLimitEntry"

definition getKey :: "string \<Rightarrow> string \<Rightarrow> string" where
  "getKey ip endpoint = ip @ '':'' @ endpoint"

text \<open>\<open>cleanup\<close>: every entry whose two reset times are before \<open>now\<close> is deleted.\<close>

definition cleanup :: "int \<Rightarrow> store \<Rightarrow> store" where
  "cleanup now st = (\<lambda>key.
     case st key of
       None \<Rightarrow> None
     | Some entry \<Rightarrow>
         if resetTime entry < now \<and> burstResetTime entry < now then None else Some entry)"

text \<open>
  \<open>checkRateLimit\<close> in three parts, in the order of the source: the lookup that creates
  a missing entry, the two window resets, and the decision. The entry is an object held
  by the map and is mutated in place, so the resets are stored also when the request is
  rejected.
\<close>

definition burstMessage :: string where
  "burstMessage = ''Slow down a bit! Please wait a few seconds before your next message.''"

definition minuteMessage :: string where
  "minuteMessage =
     ''You're chatting quite actively! Please wait a moment before sending another message.''"

definition lookupOrCreate :: "int \<Rightarrow> RateLimitConfig \<Rightarrow> RateLimitEntry option \<Rightarrow> RateLimitEntry" where
  "lookupOrCreate now config found =
     (case found of
        Some entry \<Rightarrow> entry
      | None \<Rightarrow> \<lparr>count = 0, resetTime = now + 60 * 1000,
                 burstCount = 0, burstResetTime = now + burstWindow config\<rparr>)"

definition resetWindows :: "int \<Rightarrow> RateLimitConfig \<Rightarrow> RateLimitEntry \<Rightarrow> RateLimitEntry" where
  "resetWindows now config entry =
     (let entry1 = (if now \<ge> resetTime entry
                    then entry\<lparr>count := 0, resetTime := now + 60 * 1000\<rparr> else entry)
      in if now \<ge> burstResetTime entry1
         then entry1\<lparr>burstCount := 0, burstResetTime := now + burstWindow config\<rparr>
         else entry1)"

definition checkRateLimit ::
  "int \<Rightarrow> store \<Rightarrow> string \<Rightarrow> string \<Rightarrow> RateLimitConfig \<Rightarrow> RateLimitResult \<times> store" where
  "checkRateLimit now st ip endpoint config =
     (let key = getKey ip endpoint;
          entry = resetWindows now config (lookupOrCreate now config (st key))
      in if burstCount entry \<ge> burstLimit config then
           (\<lparr>allowed = False, error = Some burstMessage,
             resultResetTime = Some (burstResetTime entry), remaining = Some 0\<rparr>,
            st(key \<mapsto> entry))
         else if count entry \<ge> perMinute config then
           (\<lparr>allowed = False, error = Some minuteMessage,
             resultResetTime = Some (resetTime entry), remaining = Some 0\<rparr>,
            st(key \<mapsto> entry))
         else
           (let entry' = entry\<lparr>count := count entry + 1, burstCount := burstCount entry + 1\<rparr>
            in (\<lparr>allowed = True, error = None,
                 resultResetTime = Some (resetTime entry'),
                 remaining = Some (perMinute config - count entry')\<rparr>,
                st(key \<mapsto> entry'))))"

definition getRemainingRequests :: "int \<Rightarrow> store \<Rightarrow> string \<Rightarrow> string \<Rightarrow> int" where
  "getRemainingRequests now st ip endpoint =
     (case st (getKey ip endpoint) of
        None \<Rightarrow> 30
      | Some entry \<Rightarrow> if now \<ge> resetTime entry then 30 else max 0 (30 - count entry))"

text \<open>The table \<open>RATE_LIMITS\<close>.\<close>

definition RATE_LIMITS_chat :: RateLimitConfig where
  "RATE_LIMITS_chat = \<lparr>perMinute = 30, perHour = 100, burstLimit = 5, burstWindow = 10000\<rparr>"

definition RATE_LIMITS_health :: RateLimitConfig where
  "RATE_LIMITS_health = \<lparr>perMinute = 60, perHour = 200, burstLimit = 10, burstWindow = 5000\<rparr>"

text \<open>A run of checks for one caller, each with its own reading of the clock.\<close>

fun checks :: "int list \<Rightarrow> store \<Rightarrow> string \<Rightarrow> string \<Rightarrow> RateLimitConfig \<Rightarrow> RateLimitResult list \<times> store" where
  "checks [] st ip endpoint config = ([], st)"
| "checks (now # nows) st ip endpoint config =
     (let (r, st') = checkRateLimit now st ip endpoint config;
          (rs, st'') = checks nows st' ip endpoint config
      in (r # rs, st''))"

section \<open>API service (class ApiService)\<close>

text \<open>
  The service is a singleton whose configuration is fixed by its constructor; the
  configuration fields are constants here. Times are milliseconds, \<open>Date\<close> objects are
  their timestamps.
\<close>

definition baseUrl :: string where "baseUrl = ''/api''"
definition timeout :: int where "timeout = 30000"
definition maxRetries :: nat where "maxRetries = 3"
definition retryDelay :: real where "retryDelay = 1000"
definition circuitBreakerThreshold :: int where "circuitBreakerThreshold = 5"
definition circuitBreakerResetTime :: int where "circuitBreakerResetTime = 60000"

subsection \<open>Errors\<close>

text \<open>
  The string literals of \<open>ApiError['type']\<close>, capitalised: \<open>timeout\<close> is also a field of
  the service.
\<close>

datatype error_type = Network | Server | Client | Timeout | RateLimit | Auth | Unknown

text \<open>
  A JavaScript number, as far as the code's arithmetic on it is exact: \<open>NaN\<close>, an integer
  of magnitude below \<open>2^53\<close>, or \<open>Large\<close>, some number of magnitude \<open>2^53\<close> or more, an
  infinity included, whose value is not followed. Every integer below \<open>2^53\<close> in magnitude
  is a double, and a conversion or product whose true value is such an integer returns
  it; when the true value is \<open>2^53\<close> or more in magnitude, so is the double returned. The
  sign of zero is not modelled.
\<close>

datatype js_number = NaN | Num int | Large

definition js_integer :: "int \<Rightarrow> js_number" where
  "js_integer v = (if \<bar>v\<bar> < 2 ^ 53 then Num v else Large)"

text \<open>\<open>retryAfter * 1000\<close>.\<close>

fun times1000 :: "js_number \<Rightarrow> js_number" where
  "times1000 NaN = NaN"
| "times1000 (Num n) = js_integer (n * 1000)"
| "times1000 Large = Large"

record ApiError =
  type :: error_type
  message :: string
  statusCode :: "nat option"
  retryable :: bool
  retryAfter :: "js_number option"

definition createApiError ::
  "error_type \<Rightarrow> string \<Rightarrow> nat option \<Rightarrow> bool \<Rightarrow> js_number option \<Rightarrow> ApiError" where
  "createApiError ty msg code retry after =
     \<lparr>type = ty, message = msg, statusCode = code, retryable = retry, retryAfter = after\<rparr>"

subsection \<open>Strings and numbers of the JavaScript library\<close>

text \<open>Decimal rendering of a number in a template literal, \<open>`HTTP ${statusCode}`\<close>.\<close>

definition digit_char :: "nat \<Rightarrow> char" where
  "digit_char d = ''0123456789'' ! d"

fun string_of_nat :: "nat \<Rightarrow> string" where
  "string_of_nat n =
     (if n < 10 then [digit_char n] else string_of_nat (n div 10) @ [digit_char (n mod 10)])"

declare string_of_nat.simps [simp del]

text \<open>
  \<open>parseInt(string)\<close> with no radix: leading white space is skipped, a sign is read, a
  prefix \<open>0x\<close> or \<open>0X\<close> selects radix 16, the longest run of digits is converted, and the
  result is \<open>NaN\<close> when that run is empty. The string is a header value or a literal: a
  byte string, each byte one code unit. Of JavaScript's white space and line terminators
  the code units below 256 are the tab, the line feed, the vertical tab, the form feed,
  the carriage return, the space and the no-break space \<open>U+00A0\<close>.
\<close>

definition isWhiteSpace :: "char \<Rightarrow> bool" where
  "isWhiteSpace c = (of_char c \<in> {9, 10, 11, 12, 13, 32, 160 :: nat})"

definition digit_value :: "char \<Rightarrow> nat option" where
  "digit_value c =
     (let k = (of_char c :: nat)
      in if 48 \<le> k \<and> k \<le> 57 then Some (k - 48)
         else if 97 \<le> k \<and> k \<le> 122 then Some (k - 87)
         else if 65 \<le> k \<and> k \<le> 90 then Some (k - 55)
         else None)"

definition is_digit :: "nat \<Rightarrow> char \<Rightarrow> bool" where
  "is_digit R c = (case digit_value c of Some d \<Rightarrow> d < R | None \<Rightarrow> False)"

definition digits_value :: "nat \<Rightarrow> string \<Rightarrow> nat" where
  "digits_value R Z = foldl (\<lambda>a c. R * a + (case digit_value c of Some d \<Rightarrow> d | None \<Rightarrow> 0)) 0 Z"

definition parseInt :: "string \<Rightarrow> js_number" where
  "parseInt inputString =
     (let S = dropWhile isWhiteSpace inputString;
          sign = (if take 1 S = ''-'' then - 1 else (1 :: int));
          S1 = (if take 1 S = ''-'' \<or> take 1 S = ''+'' then drop 1 S else S);
          hex = (take 2 S1 = ''0x'' \<or> take 2 S1 = ''0X'');
          R = (if hex then 16 else 10);
          S2 = (if hex then drop 2 S1 else S1);
          Z = takeWhile (is_digit R) S2
      in if Z = [] then NaN else js_integer (sign * int (digits_value R Z)))"

text \<open>A non-empty string of decimal digits, the form \<open>string_of_nat\<close> writes.\<close>

definition decimal :: "string \<Rightarrow> bool" where
  "decimal s = (s \<noteq> [] \<and> list_all (\<lambda>c. c \<in> digit_char ` {0..<10}) s)"

text \<open>
  \<open>a || b\<close> for a property \<open>a\<close> that holds a string or is undefined: the empty string and
  \<open>undefined\<close> are falsy.
\<close>

definition js_or :: "string option \<Rightarrow> string \<Rightarrow> string" where
  "js_or a b = (case a of None \<Rightarrow> b | Some s \<Rightarrow> if s = [] then b else s)"

subsection \<open>Responses\<close>

text \<open>
  What the code reads of a \<open>Response\<close>: the status, the status text, the header
  \<open>Retry-After\<close> (\<open>None\<close> when \<open>headers.get\<close> returns \<open>null\<close>) and the parsed body.
  \<open>json\<close> is \<open>None\<close> when \<open>response.json()\<close> rejects; a parsed body is an object read
  through its string-valued properties.
\<close>

record Response =
  status :: nat
  statusText :: string
  retryAfterHeader :: "string option"
  json :: "(string \<times> string) list option"

text \<open>\<open>response.ok\<close>: the status is in the range 200 to 299.\<close>

definition ok :: "Response \<Rightarrow> bool" where
  "ok response = (200 \<le> status response \<and> status response \<le> 299)"

definition handleHttpError :: "Response \<Rightarrow> ApiError" where
  "handleHttpError response =
     (let code = status response;
          msg0 = ''HTTP '' @ string_of_nat code;
          msg = (case json response of
                   Some errorData \<Rightarrow>
                     js_or (map_of errorData ''error'') (js_or (map_of errorData ''message'') msg0)
                 | None \<Rightarrow> js_or (Some (statusText response)) msg0)
      in if code \<ge> 500 then createApiError Server msg (Some code) True None
         else if code = 429 then
           (let after = parseInt (js_or (retryAfterHeader response) ''60'')
            in createApiError RateLimit ''Too many requests'' (Some code) True
                 (Some (times1000 after)))
         else if code = 401 \<or> code = 403 then
           createApiError Auth ''Authentication failed'' (Some code) False None
         else if code \<ge> 400 then createApiError Client msg (Some code) False None
         else createApiError Unknown msg (Some code) False None)"

subsection \<open>Retry delay\<close>

text \<open>
  \<open>calculateRetryDelay\<close>, over the reals; \<open>rnd\<close> is the value \<open>Math.random()\<close> returns, a
  number in \<open>[0, 1)\<close>.
\<close>

definition calculateRetryDelay :: "nat \<Rightarrow> real \<Rightarrow> real" where
  "calculateRetryDelay retryCount rnd =
     (let baseDelay = retryDelay * 2 ^ retryCount;
          jitter = rnd * 0.1 * baseDelay
      in min (baseDelay + jitter) 30000)"

subsection \<open>Service state, circuit breaker, introspection\<close>

record ConnectionStatus =
  isOnline :: bool
  lastChecked :: int
  responseTime :: "int option"

text \<open>
  \<open>requestQueue\<close> is a \<open>Map\<close> from request keys to promises: a list of pairs in insertion
  order with distinct keys, a promise being named by a number.
\<close>

record ApiService =
  connectionStatus :: ConnectionStatus
  requestQueue :: "(string \<times> nat) list"
  circuitBreakerFailures :: int
  circuitBreakerLastFailure :: "int option"

definition newApiService :: "bool \<Rightarrow> int \<Rightarrow> ApiService" where
  "newApiService onLine now =
     \<lparr>connectionStatus = \<lparr>isOnline = onLine, lastChecked = now, responseTime = None\<rparr>,
      requestQueue = [],
      circuitBreakerFailures = 0,
      circuitBreakerLastFailure = None\<rparr>"

text \<open>The two listeners of \<open>setupConnectionMonitoring\<close>.\<close>

definition onOnline :: "int \<Rightarrow> ApiService \<Rightarrow> ApiService" where
  "onOnline now s =
     s\<lparr>connectionStatus := (connectionStatus s)\<lparr>isOnline := True, lastChecked := now\<rparr>\<rparr>"

definition onOffline :: "int \<Rightarrow> ApiService \<Rightarrow> ApiService" where
  "onOffline now s =
     s\<lparr>connectionStatus := (connectionStatus s)\<lparr>isOnline := False, lastChecked := now\<rparr>\<rparr>"

definition recordFailure :: "int \<Rightarrow> ApiService \<Rightarrow> ApiService" where
  "recordFailure now s =
     s\<lparr>circuitBreakerFailures := circuitBreakerFailures s + 1,
       circuitBreakerLastFailure := Some now\<rparr>"

text \<open>\<open>isCircuitBreakerOpen\<close> returns its answer and the state it leaves.\<close>

definition isCircuitBreakerOpen :: "int \<Rightarrow> ApiService \<Rightarrow> bool \<times> ApiService" where
  "isCircuitBreakerOpen now s =
     (if circuitBreakerFailures s < circuitBreakerThreshold then (False, s)
      else case circuitBreakerLastFailure s of
             None \<Rightarrow> (False, s)
           | Some lastFailure \<Rightarrow>
               (let timeSinceLastFailure = now - lastFailure
                in if timeSinceLastFailure > circuitBreakerResetTime
                   then (False, s\<lparr>circuitBreakerFailures := 0,
                                  circuitBreakerLastFailure := None\<rparr>)
                   else (True, s)))"

definition getConnectionStatus :: "ApiService \<Rightarrow> ConnectionStatus \<times> ApiService" where
  "getConnectionStatus s = (connectionStatus s, s)"

definition clearRequestQueue :: "ApiService \<Rightarrow> ApiService" where
  "clearRequestQueue s = s\<lparr>requestQueue := []\<rparr>"

text \<open>
  The object \<open>getMetrics\<close> returns; its properties are evaluated in the order written, so
  \<open>circuitBreakerFailures\<close> is read before \<open>isCircuitBreakerOpen\<close> runs.
\<close>

record Metrics =
  metricsFailures :: int
  metricsIsCircuitBreakerOpen :: bool
  queueSize :: nat
  metricsConnectionStatus :: ConnectionStatus

definition getMetrics :: "int \<Rightarrow> ApiService \<Rightarrow> Metrics \<times> ApiService" where
  "getMetrics now s =
     (let failures = circuitBreakerFailures s;
          (isOpen, s1) = isCircuitBreakerOpen now s;
          size = length (requestQueue s1);
          (status, s2) = getConnectionStatus s1
      in (\<lparr>metricsFailures = failures, metricsIsCircuitBreakerOpen = isOpen,
           queueSize = size, metricsConnectionStatus = status\<rparr>, s2))"

subsection \<open>The network and the clock\<close>

text \<open>
  What one call of \<open>fetch\<close> can do: resolve with a response after some milliseconds, stay
  silent until the caller's timer aborts it (it then rejects with an \<open>AbortError\<close>),
  reject after some milliseconds with a \<open>TypeError\<close> whose message contains \<open>fetch\<close>, or
  reject with any other value.
\<close>

datatype fetch_result =
    Responds Response int
  | Aborted
  | FetchTypeError int
  | OtherError int

text \<open>
  The environment answers the \<open>k\<close>-th call of \<open>fetch\<close> and the \<open>k\<close>-th call of
  \<open>Math.random\<close>. The world holds the clock \<open>Date.now()\<close> and counts both kinds of calls.
  Reading a body takes no time and a sleep of \<open>ms\<close> milliseconds advances the clock by
  \<open>\<lfloor>ms\<rfloor>\<close>. One request runs at a time: no other request and no online or offline
  event is interleaved with it.
\<close>

record Env =
  fetch :: "nat \<Rightarrow> fetch_result"
  random :: "nat \<Rightarrow> real"

record World =
  clock :: int
  fetchCalls :: nat
  randomCalls :: nat

definition sleep :: "real \<Rightarrow> World \<Rightarrow> World" where
  "sleep ms w = w\<lparr>clock := clock w + \<lfloor>ms\<rfloor>\<rparr>"

definition afterFetch :: "int \<Rightarrow> World \<Rightarrow> World" where
  "afterFetch ms w = w\<lparr>clock := clock w + ms, fetchCalls := fetchCalls w + 1\<rparr>"

subsection \<open>makeRequest\<close>

text \<open>
  The result is \<open>Inl\<close> of the error thrown or \<open>Inr\<close> of the parsed body. The branches
  follow the source: the breaker check, the offline check, the call of \<open>fetch\<close>, the
  update of the connection status and the reset of the breaker on every response, and the
  \<open>catch\<close> block with its tests in their order.
\<close>

function makeRequest ::
  "Env \<Rightarrow> nat \<Rightarrow> World \<Rightarrow> ApiService \<Rightarrow> (ApiError + (string \<times> string) list) \<times> World \<times> ApiService"
  where
  "makeRequest env retryCount w s =
     (let (isOpen, s1) = isCircuitBreakerOpen (clock w) s
      in if isOpen then
           (Inl (createApiError Server ''Service temporarily unavailable'' (Some 503) False None),
            w, s1)
         else if \<not> isOnline (connectionStatus s1) then
           (Inl (createApiError Network ''No internet connection'' None True None), w, s1)
         else
           (case fetch env (fetchCalls w) of
              Responds response ms \<Rightarrow>
                (let startTime = clock w;
                     w1 = afterFetch ms w;
                     s2 = s1\<lparr>connectionStatus :=
                               (connectionStatus s1)\<lparr>responseTime := Some (clock w1 - startTime),
                                                     lastChecked := clock w1\<rparr>,
                             circuitBreakerFailures := 0,
                             circuitBreakerLastFailure := None\<rparr>
                 in if \<not> ok response then
                      (let error = handleHttpError response;
                           s3 = recordFailure (clock w1) s2
                       in if retryable error \<and> retryCount < maxRetries then
                            (let delay = calculateRetryDelay retryCount (random env (randomCalls w1));
                                 w2 = sleep delay (w1\<lparr>randomCalls := randomCalls w1 + 1\<rparr>)
                             in makeRequest env (retryCount + 1) w2 s3)
                          else (Inl error, w1, s3))
                    else
                      (case json response of
                         Some data \<Rightarrow> (Inr data, w1, s2)
                       | None \<Rightarrow>
                           (Inl (createApiError Unknown ''An unexpected error occurred'' None False None),
                            w1, recordFailure (clock w1) s2)))
            | Aborted \<Rightarrow>
                (Inl (createApiError Timeout ''Request timed out'' None True None),
                 afterFetch timeout w, s1)
            | FetchTypeError ms \<Rightarrow>
                (Inl (createApiError Network ''Network connection failed'' None True None),
                 afterFetch ms w, s1)
            | OtherError ms \<Rightarrow>
                (let w1 = afterFetch ms w
                 in (Inl (createApiError Unknown ''An unexpected error occurred'' None False None),
                     w1, recordFailure (clock w1) s1))))"
  by pat_completeness auto
termination
  by (relation "measure (\<lambda>(env, retryCount, w, s). maxRetries - retryCount)") auto

declare makeRequest.simps [simp del]

text \<open>\<open>checkHealth\<close>, whose own time limit is five seconds.\<close>

definition checkHealth :: "Env \<Rightarrow> World \<Rightarrow> ApiService \<Rightarrow> bool \<times> World \<times> ApiService" where
  "checkHealth env w s =
     (case fetch env (fetchCalls w) of
        Responds response ms \<Rightarrow>
          (let startTime = clock w;
               w1 = afterFetch ms w
           in (ok response, w1,
               s\<lparr>connectionStatus :=
                   \<lparr>isOnline = ok response, lastChecked = clock w1,
                    responseTime = Some (clock w1 - startTime)\<rparr>\<rparr>))
      | Aborted \<Rightarrow>
          (let w1 = afterFetch 5000 w
           in (False, w1,
               s\<lparr>connectionStatus :=
                   (connectionStatus s)\<lparr>isOnline := False, lastChecked := clock w1\<rparr>\<rparr>))
      | FetchTypeError ms \<Rightarrow>
          (let w1 = afterFetch ms w
           in (False, w1,
               s\<lparr>connectionStatus :=
                   (connectionStatus s)\<lparr>isOnline := False, lastChecked := clock w1\<rparr>\<rparr>))
      | OtherError ms \<Rightarrow>
          (let w1 = afterFetch ms w
           in (False, w1,
               s\<lparr>connectionStatus :=
                   (connectionStatus s)\<lparr>isOnline := False, lastChecked := clock w1\<rparr>\<rparr>)))"

text \<open>A run of requests, one after the other, \<open>gap\<close> milliseconds apart.\<close>

fun requests ::
  "Env \<Rightarrow> int \<Rightarrow> nat \<Rightarrow> World \<Rightarrow> ApiService \<Rightarrow> (ApiError + (string \<times> string) list) list \<times> World \<times> ApiService"
  where
  "requests env gap 0 w s = ([], w, s)"
| "requests env gap (Suc n) w s =
     (let (r, w1, s1) = makeRequest env 0 w s;
          (rs, w2, s2) = requests env gap n (w1\<lparr>clock := clock w1 + gap\<rparr>) s1
      in (r # rs, w2, s2))"

subsection \<open>Concrete inputs\<close>

text \<open>
  A world at time 0, a fresh online service, an environment whose every \<open>fetch\<close> does
  the same thing and whose \<open>Math.random\<close> returns 0, and two responses.
\<close>

definition world0 :: World where
  "world0 = \<lparr>clock = 0, fetchCalls = 0, randomCalls = 0\<rparr>"

definition service0 :: ApiService where
  "service0 = newApiService True 0"

definition always :: "fetch_result \<Rightarrow> Env" where
  "always r = \<lparr>fetch = (\<lambda>k. r), random = (\<lambda>k. 0)\<rparr>"

definition serviceUnavailable :: Response where
  "serviceUnavailable =
     \<lparr>status = 503, statusText = ''Service Unavailable'', retryAfterHeader = None, json = None\<rparr>"

definition badRequest :: Response where
  "badRequest =
     \<lparr>status = 400, statusText = ''Bad Request'', retryAfterHeader = None,
      json = Some [(''error'', ''Message is required'')]\<rparr>"

text \<open>A service whose breaker has counted five failures, the last one at time 0.\<close>

definition tripped :: ApiService where
  "tripped =
     \<lparr>connectionStatus = \<lparr>isOnline = True, lastChecked = 0, responseTime = None\<rparr>,
      requestQueue = [],
      circuitBreakerFailures = 5,
      circuitBreakerLastFailure = Some 0\<rparr>"

subsection \<open>sendChatMessage and the request queue\<close>

text \<open>
  The field \<open>message\<close> of a \<open>ChatRequest\<close> is named \<open>chatMessage\<close> here, \<open>message\<close> being the
  field of \<open>ApiError\<close>.
\<close>

record ChatRequest =
  chatMessage :: string
  personality :: string
  gender :: string
  language :: string

text \<open>
  \<open>JSON.stringify\<close> of a string and of a request whose properties were written in the
  order of the interface. Characters are bytes; the quotation mark is \<open>0x22\<close>, the
  backslash \<open>0x5C\<close>.
\<close>

definition hex_char :: "nat \<Rightarrow> char" where
  "hex_char d = ''0123456789abcdef'' ! d"

definition json_escape :: "char \<Rightarrow> string" where
  "json_escape c =
     (let k = (of_char c :: nat)
      in if k = 34 then [CHR 0x5C, CHR 0x22]
         else if k = 92 then [CHR 0x5C, CHR 0x5C]
         else if k = 8 then [CHR 0x5C, CHR ''b'']
         else if k = 12 then [CHR 0x5C, CHR ''f'']
         else if k = 10 then [CHR 0x5C, CHR ''n'']
         else if k = 13 then [CHR 0x5C, CHR ''r'']
         else if k = 9 then [CHR 0x5C, CHR ''t'']
         else if k < 32 then
           [CHR 0x5C, CHR ''u'', CHR ''0'', CHR ''0'', hex_char (k div 16), hex_char (k mod 16)]
         else [c])"

definition JSON_stringify :: "string \<Rightarrow> string" where
  "JSON_stringify s = [CHR 0x22] @ concat (map json_escape s) @ [CHR 0x22]"

definition JSON_stringify_request :: "ChatRequest \<Rightarrow> string" where
  "JSON_stringify_request request =
     ''{'' @ JSON_stringify ''message'' @ '':'' @ JSON_stringify (chatMessage request)
     @ '','' @ JSON_stringify ''personality'' @ '':'' @ JSON_stringify (personality request)
     @ '','' @ JSON_stringify ''gender'' @ '':'' @ JSON_stringify (gender request)
     @ '','' @ JSON_stringify ''language'' @ '':'' @ JSON_stringify (language request)
     @ ''}''"

text \<open>\<open>getRequestKey\<close>; \<open>body\<close> is \<open>options.body\<close>, and \<open>options.body || {}\<close> is \<open>{}\<close> when it is undefined or empty.\<close>

definition getRequestKey :: "string \<Rightarrow> string option \<Rightarrow> string" where
  "getRequestKey url body =
     url @ ''_'' @
     (case body of
        None \<Rightarrow> ''{}''
      | Some b \<Rightarrow> if b = [] then ''{}'' else JSON_stringify b)"

text \<open>The key under which \<open>sendChatMessage\<close> queues a request.\<close>

definition requestKey_of :: "ChatRequest \<Rightarrow> string" where
  "requestKey_of request =
     getRequestKey (baseUrl @ ''/chat'') (Some (JSON_stringify_request request))"

text \<open>The operations of a \<open>Map\<close> on the list of its entries.\<close>

definition map_set :: "string \<Rightarrow> nat \<Rightarrow> (string \<times> nat) list \<Rightarrow> (string \<times> nat) list" where
  "map_set key v entries =
     (if map_of entries key = None then entries @ [(key, v)]
      else map (\<lambda>(k, old). if k = key then (k, v) else (k, old)) entries)"

definition map_delete :: "string \<Rightarrow> (string \<times> nat) list \<Rightarrow> (string \<times> nat) list" where
  "map_delete key entries = filter (\<lambda>(k, v). k \<noteq> key) entries"

text \<open>
  JavaScript runs one piece of code at a time, and an \<open>async\<close> function runs without
  interruption up to its next \<open>await\<close>. \<open>sendChatMessage\<close> is therefore two atomic steps:
  the call, up to \<open>await requestPromise\<close>, and the continuation that runs when the promise
  of \<open>makeRequest\<close> settles. A promise of \<open>makeRequest\<close> is named by its number: \<open>promises\<close>
  counts the calls of \<open>makeRequest\<close>, \<open>inFlight\<close> lists the unsettled ones, each with the key
  its owner deletes in \<open>finally\<close>. \<open>waiting\<close> lists the invocations of \<open>sendChatMessage\<close>
  that have not returned, each with the promise whose outcome it returns, and
  \<open>delivered\<close> lists the outcomes the invocations have returned or thrown. When and how a
  promise settles is the environment's choice; the breaker and connection fields of the
  service, which \<open>makeRequest\<close> changes, are not followed in this part.
\<close>

type_synonym outcome = "ApiError + (string \<times> string) list"

record Async =
  service :: ApiService
  promises :: nat
  inFlight :: "(nat \<times> string) list"
  waiting :: "(nat \<times> nat) list"
  delivered :: "(nat \<times> outcome) list"

definition newAsync :: Async where
  "newAsync = \<lparr>service = newApiService True 0, promises = 0, inFlight = [], waiting = [],
               delivered = []\<rparr>"

text \<open>The call, by invocation \<open>caller\<close>: it returns the promise the invocation waits for.\<close>

definition sendChatMessage_call :: "nat \<Rightarrow> ChatRequest \<Rightarrow> Async \<Rightarrow> nat \<times> Async" where
  "sendChatMessage_call caller request a =
     (let url = baseUrl @ ''/chat'';
          requestKey = getRequestKey url (Some (JSON_stringify_request request))
      in case map_of (requestQueue (service a)) requestKey of
           Some queued \<Rightarrow> (queued, a\<lparr>waiting := waiting a @ [(caller, queued)]\<rparr>)
         | None \<Rightarrow>
             (let requestPromise = promises a
              in (requestPromise,
                  a\<lparr>promises := Suc (promises a),
                    inFlight := inFlight a @ [(requestPromise, requestKey)],
                    service := (service a)\<lparr>requestQueue :=
                      map_set requestKey requestPromise (requestQueue (service a))\<rparr>,
                    waiting := waiting a @ [(caller, requestPromise)]\<rparr>)))"

text \<open>
  Promise \<open>p\<close> settles with \<open>result\<close>: its owner's \<open>finally\<close> deletes the key, and
  every invocation that waits for \<open>p\<close> returns or throws \<open>result\<close>.
\<close>

definition sendChatMessage_settle :: "nat \<Rightarrow> outcome \<Rightarrow> Async \<Rightarrow> Async" where
  "sendChatMessage_settle p result a =
     (case map_of (inFlight a) p of
        None \<Rightarrow> a
      | Some requestKey \<Rightarrow>
          a\<lparr>inFlight := filter (\<lambda>(q, k). q \<noteq> p) (inFlight a),
            service := (service a)\<lparr>requestQueue :=
              map_delete requestKey (requestQueue (service a))\<rparr>,
            delivered := delivered a @
              map (\<lambda>(c, q). (c, result)) (filter (\<lambda>(c, q). q = p) (waiting a)),
            waiting := filter (\<lambda>(c, q). q \<noteq> p) (waiting a)\<rparr>)"

text \<open>
  What can happen to the queue: an invocation of \<open>sendChatMessage\<close>, the settlement of
  a promise of \<open>makeRequest\<close>, and a call of \<open>clearRequestQueue\<close>.
\<close>

datatype event = Call nat ChatRequest | Settle nat outcome | Clear

fun step :: "event \<Rightarrow> Async \<Rightarrow> Async" where
  "step (Call caller request) a = snd (sendChatMessage_call caller request a)"
| "step (Settle p result) a = sendChatMessage_settle p result a"
| "step Clear a = a\<lparr>service := clearRequestQueue (service a)\<rparr>"

fun run :: "event list \<Rightarrow> Async \<Rightarrow> Async" where
  "run [] a = a"
| "run (e # es) a = run es (step e a)"

text \<open>Events that neither settle promise \<open>p\<close> nor clear the queue.\<close>

fun leaves :: "nat \<Rightarrow> event \<Rightarrow> bool" where
  "leaves p (Call caller request) = True"
| "leaves p (Settle q result) = (q \<noteq> p)"
| "leaves p Clear = False"

text \<open>
  The queue is consistent: it lists exactly the promises in flight, each under the key of
  its request, no key and no promise twice, and every promise was counted.
\<close>

definition consistent :: "Async \<Rightarrow> bool" where
  "consistent a =
     (inFlight a = map (\<lambda>(k, p). (p, k)) (requestQueue (service a))
      \<and> distinct (map fst (requestQueue (service a)))
      \<and> distinct (map snd (requestQueue (service a)))
      \<and> list_all (\<lambda>(k, p). p < promises a) (requestQueue (service a)))"

text \<open>Two requests and an outcome.\<close>

definition hello :: ChatRequest where
  "hello = \<lparr>chatMessage = ''Hello'', personality = ''friendly'', gender = ''female'',
            language = ''auto''\<rparr>"

definition bye :: ChatRequest where
  "bye = \<lparr>chatMessage = ''Bye'', personality = ''friendly'', gender = ''female'',
          language = ''auto''\<rparr>"

definition greeting :: outcome where
  "greeting = Inr [(''response'', ''Hi there'')]"

section \<open>Rate limiter: theorems\<close>

text \<open>
  Claim C4 (admission algorithm). Let \<open>entry\<close> be the caller's entry after it has been
  created if missing and its expired windows have been reset. If its \<open>burstCount\<close> has
  reached \<open>burstLimit\<close> the check is refused with the burst message, the burst reset
  time and \<open>remaining = 0\<close>, whatever \<open>count\<close> is; otherwise, if \<open>count\<close> has reached
  \<open>perMinute\<close>, it is refused with the per-minute message and the window reset time;
  otherwise the request is admitted, both counters are incremented and stored, and the
  result reports \<open>perMinute\<close> minus the incremented count and the window reset time.
\<close>

theorem checkRateLimit_admission:
  assumes "entry = resetWindows now config (lookupOrCreate now config (st (getKey ip endpoint)))"
  shows "(burstLimit config \<le> burstCount entry \<longrightarrow>
            checkRateLimit now st ip endpoint config =
              (\<lparr>allowed = False, error = Some burstMessage,
                resultResetTime = Some (burstResetTime entry), remaining = Some 0\<rparr>,
               st(getKey ip endpoint \<mapsto> entry)))
       \<and> (burstCount entry < burstLimit config \<and> perMinute config \<le> count entry \<longrightarrow>
            checkRateLimit now st ip endpoint config =
              (\<lparr>allowed = False, error = Some minuteMessage,
                resultResetTime = Some (resetTime entry), remaining = Some 0\<rparr>,
               st(getKey ip endpoint \<mapsto> entry)))
       \<and> (burstCount entry < burstLimit config \<and> count entry < perMinute config \<longrightarrow>
            checkRateLimit now st ip endpoint config =
              (\<lparr>allowed = True, error = None,
                resultResetTime = Some (resetTime entry),
                remaining = Some (perMinute config - (count entry + 1))\<rparr>,
               st(getKey ip endpoint \<mapsto>
                  entry\<lparr>count := count entry + 1, burstCount := burstCount entry + 1\<rparr>)))"
  using assms by (simp add: checkRateLimit_def Let_def)

text \<open>
  The chat policy on five calls in five milliseconds: all five are admitted and the entry
  then holds \<open>count = 5\<close> and \<open>burstCount = 5\<close>.
\<close>

lemma five_rapid_calls:
  "snd (checks [0, 1, 2, 3, 4] Map.empty ''1.2.3.4'' ''chat'' RATE_LIMITS_chat)
     = Map.empty(''1.2.3.4:chat'' \<mapsto>
         \<lparr>count = 5, resetTime = 60000, burstCount = 5, burstResetTime = 10000\<rparr>)"
  by (simp add: checkRateLimit_def resetWindows_def lookupOrCreate_def getKey_def
      RATE_LIMITS_chat_def Let_def)

lemma five_rapid_calls_allowed:
  "map allowed (fst (checks [0, 1, 2, 3, 4] Map.empty ''1.2.3.4'' ''chat'' RATE_LIMITS_chat))
     = [True, True, True, True, True]"
  by (simp add: checkRateLimit_def resetWindows_def lookupOrCreate_def getKey_def
      RATE_LIMITS_chat_def Let_def)

text \<open>
  The three branches at concrete inputs: the sixth rapid call is refused for the burst
  although \<open>count = 5 < 30\<close>; a caller with a used-up minute and a fresh burst window is
  refused for the minute; a first call is admitted with 29 remaining.
\<close>

theorem checkRateLimit_admission_witness:
  "fst (checkRateLimit 5
          (Map.empty(''1.2.3.4:chat'' \<mapsto>
             \<lparr>count = 5, resetTime = 60000, burstCount = 5, burstResetTime = 10000\<rparr>))
          ''1.2.3.4'' ''chat'' RATE_LIMITS_chat)
     = \<lparr>allowed = False, error = Some burstMessage,
         resultResetTime = Some 10000, remaining = Some 0\<rparr>
   \<and> (5::int) < perMinute RATE_LIMITS_chat
   \<and> fst (checkRateLimit 20000
          (Map.empty(''1.2.3.4:chat'' \<mapsto>
             \<lparr>count = 30, resetTime = 60000, burstCount = 2, burstResetTime = 10000\<rparr>))
          ''1.2.3.4'' ''chat'' RATE_LIMITS_chat)
     = \<lparr>allowed = False, error = Some minuteMessage,
         resultResetTime = Some 60000, remaining = Some 0\<rparr>
   \<and> checkRateLimit 0 Map.empty ''1.2.3.4'' ''chat'' RATE_LIMITS_chat
     = (\<lparr>allowed = True, error = None, resultResetTime = Some 60000, remaining = Some 29\<rparr>,
        Map.empty(''1.2.3.4:chat'' \<mapsto>
          \<lparr>count = 1, resetTime = 60000, burstCount = 1, burstResetTime = 10000\<rparr>))"
  using
    checkRateLimit_admission [of
      "\<lparr>count = 5, resetTime = 60000, burstCount = 5, burstResetTime = 10000\<rparr>"
      5 RATE_LIMITS_chat
      "Map.empty(''1.2.3.4:chat'' \<mapsto>
         \<lparr>count = 5, resetTime = 60000, burstCount = 5, burstResetTime = 10000\<rparr>)"
      "''1.2.3.4''" "''chat''"]
    checkRateLimit_admission [of
      "\<lparr>count = 30, resetTime = 60000, burstCount = 0, burstResetTime = 30000\<rparr>"
      20000 RATE_LIMITS_chat
      "Map.empty(''1.2.3.4:chat'' \<mapsto>
         \<lparr>count = 30, resetTime = 60000, burstCount = 2, burstResetTime = 10000\<rparr>)"
      "''1.2.3.4''" "''chat''"]
    checkRateLimit_admission [of
      "\<lparr>count = 0, resetTime = 60000, burstCount = 0, burstResetTime = 10000\<rparr>"
      0 RATE_LIMITS_chat Map.empty "''1.2.3.4''" "''chat''"]
  by (simp add: resetWindows_def lookupOrCreate_def getKey_def RATE_LIMITS_chat_def)

text \<open>An entry with both windows over is reset to exactly the entry a first check creates.\<close>

lemma resetWindows_expired:
  assumes "resetTime entry \<le> now" and "burstResetTime entry \<le> now"
  shows "resetWindows now config entry =
         resetWindows now config (lookupOrCreate now config None)"
  using assms by (simp add: resetWindows_def lookupOrCreate_def Let_def)

lemma expired_like_absent:
  assumes "st (getKey ip endpoint) = Some entry"
    and "resetTime entry \<le> now" and "burstResetTime entry \<le> now"
  shows "checkRateLimit now st ip endpoint config =
         checkRateLimit now (st(getKey ip endpoint := None)) ip endpoint config"
proof -
  have "resetWindows now config (lookupOrCreate now config (st (getKey ip endpoint))) =
        resetWindows now config (lookupOrCreate now config None)"
    using assms resetWindows_expired [of entry now config]
    by (simp add: lookupOrCreate_def)
  then show ?thesis
    by (simp add: checkRateLimit_def Let_def)
qed

lemma cleanup_lookup:
  "cleanup t st key = None \<or> cleanup t st key = st key"
  by (simp add: cleanup_def split: option.splits)

lemma cleanup_deletes_expired:
  assumes "cleanup t st key \<noteq> st key"
  shows "\<exists>entry. st key = Some entry \<and> resetTime entry < t \<and> burstResetTime entry < t"
  using assms by (auto simp: cleanup_def split: option.splits if_splits)

text \<open>
  Claim C8 (expired entry equivalence). A check on a store whose entry for the key has
  both reset times at or before \<open>now\<close> returns the same result and the same posterior
  store as the check on the store without that entry. Hence a \<open>cleanup\<close> run at any
  earlier time \<open>t\<close> changes neither the result of a later check, nor the entry it
  leaves for the key, nor the value of \<open>getRemainingRequests\<close>.
\<close>

theorem expired_entry_equivalence:
  "(st (getKey ip endpoint) = Some entry \<and> resetTime entry \<le> now \<and> burstResetTime entry \<le> now
      \<longrightarrow> checkRateLimit now st ip endpoint config =
           checkRateLimit now (st(getKey ip endpoint := None)) ip endpoint config)
 \<and> (t \<le> now
      \<longrightarrow> fst (checkRateLimit now (cleanup t st) ip endpoint config) =
           fst (checkRateLimit now st ip endpoint config)
        \<and> snd (checkRateLimit now (cleanup t st) ip endpoint config) (getKey ip endpoint) =
           snd (checkRateLimit now st ip endpoint config) (getKey ip endpoint)
        \<and> getRemainingRequests now (cleanup t st) ip endpoint =
           getRemainingRequests now st ip endpoint)"
proof (intro conjI impI)
  assume "st (getKey ip endpoint) = Some entry \<and> resetTime entry \<le> now \<and> burstResetTime entry \<le> now"
  then show "checkRateLimit now st ip endpoint config =
             checkRateLimit now (st(getKey ip endpoint := None)) ip endpoint config"
    by (simp add: expired_like_absent)
next
  assume t: "t \<le> now"
  let ?k = "getKey ip endpoint"
  have same: "resetWindows now config (lookupOrCreate now config (cleanup t st ?k)) =
              resetWindows now config (lookupOrCreate now config (st ?k))"
  proof (cases "cleanup t st ?k = st ?k")
    case True
    then show ?thesis by simp
  next
    case False
    then obtain e where e: "st ?k = Some e" "resetTime e < t" "burstResetTime e < t"
      using cleanup_deletes_expired by blast
    with False have "cleanup t st ?k = None"
      using cleanup_lookup [of t st ?k] by simp
    moreover have "resetTime e \<le> now" "burstResetTime e \<le> now"
      using e t by simp_all
    ultimately show ?thesis
      using e resetWindows_expired [of e now config] by (simp add: lookupOrCreate_def)
  qed
  show "fst (checkRateLimit now (cleanup t st) ip endpoint config) =
        fst (checkRateLimit now st ip endpoint config)"
    using same by (simp add: checkRateLimit_def Let_def)
  show "snd (checkRateLimit now (cleanup t st) ip endpoint config) ?k =
        snd (checkRateLimit now st ip endpoint config) ?k"
    using same by (simp add: checkRateLimit_def Let_def)
  show "getRemainingRequests now (cleanup t st) ip endpoint =
        getRemainingRequests now st ip endpoint"
  proof (cases "cleanup t st ?k = st ?k")
    case True
    then show ?thesis by (simp add: getRemainingRequests_def)
  next
    case False
    then obtain e where e: "st ?k = Some e" "resetTime e < t" "burstResetTime e < t"
      using cleanup_deletes_expired by blast
    with False have "cleanup t st ?k = None"
      using cleanup_lookup [of t st ?k] by simp
    then show ?thesis
      using e t by (simp add: getRemainingRequests_def)
  qed
qed

theorem expired_entry_equivalence_witness:
  "checkRateLimit 70000
     (Map.empty(''1.2.3.4:chat'' \<mapsto>
        \<lparr>count = 30, resetTime = 60000, burstCount = 5, burstResetTime = 10000\<rparr>))
     ''1.2.3.4'' ''chat'' RATE_LIMITS_chat
   = checkRateLimit 70000 Map.empty ''1.2.3.4'' ''chat'' RATE_LIMITS_chat
 \<and> fst (checkRateLimit 70000
     (cleanup 65000 (Map.empty(''1.2.3.4:chat'' \<mapsto>
        \<lparr>count = 30, resetTime = 60000, burstCount = 5, burstResetTime = 10000\<rparr>)))
     ''1.2.3.4'' ''chat'' RATE_LIMITS_chat)
   = \<lparr>allowed = True, error = None, resultResetTime = Some 130000, remaining = Some 29\<rparr>
 \<and> fst (checkRateLimit 70000
     (Map.empty(''1.2.3.4:chat'' \<mapsto>
        \<lparr>count = 30, resetTime = 60000, burstCount = 5, burstResetTime = 10000\<rparr>))
     ''1.2.3.4'' ''chat'' RATE_LIMITS_chat)
   = \<lparr>allowed = True, error = None, resultResetTime = Some 130000, remaining = Some 29\<rparr>"
  using expired_entry_equivalence [of
      "Map.empty(''1.2.3.4:chat'' \<mapsto>
        \<lparr>count = 30, resetTime = 60000, burstCount = 5, burstResetTime = 10000\<rparr>)"
      "''1.2.3.4''" "''chat''"
      "\<lparr>count = 30, resetTime = 60000, burstCount = 5, burstResetTime = 10000\<rparr>"
      70000 RATE_LIMITS_chat 65000]
  by (simp add: getKey_def checkRateLimit_def resetWindows_def lookupOrCreate_def
      RATE_LIMITS_chat_def Let_def)

text \<open>
  Claim C10 (the hourly tier is not enforced). Two configurations that agree on
  \<open>perMinute\<close>, \<open>burstLimit\<close> and \<open>burstWindow\<close> give the same result and the same posterior
  store, whatever their \<open>perHour\<close> values are.
\<close>

theorem perHour_not_enforced:
  assumes "perMinute c1 = perMinute c2" and "burstLimit c1 = burstLimit c2"
    and "burstWindow c1 = burstWindow c2"
  shows "checkRateLimit now st ip endpoint c1 = checkRateLimit now st ip endpoint c2"
proof -
  have created: "lookupOrCreate now c1 found = lookupOrCreate now c2 found" for found
    using assms by (simp add: lookupOrCreate_def split: option.splits)
  have windows: "resetWindows now c1 entry = resetWindows now c2 entry" for entry
    using assms by (simp add: resetWindows_def)
  show ?thesis
    by (simp only: checkRateLimit_def created windows assms)
qed

theorem perHour_not_enforced_witness:
  "checkRateLimit 0 Map.empty ''1.2.3.4'' ''chat'' RATE_LIMITS_chat =
   checkRateLimit 0 Map.empty ''1.2.3.4'' ''chat'' (RATE_LIMITS_chat\<lparr>perHour := 0\<rparr>)
 \<and> perHour RATE_LIMITS_chat \<noteq> perHour (RATE_LIMITS_chat\<lparr>perHour := 0\<rparr>)
 \<and> allowed (fst (checkRateLimit 0 Map.empty ''1.2.3.4'' ''chat''
      (RATE_LIMITS_chat\<lparr>perHour := 0\<rparr>)))"
  using perHour_not_enforced [of RATE_LIMITS_chat "RATE_LIMITS_chat\<lparr>perHour := 0\<rparr>"
      0 Map.empty "''1.2.3.4''" "''chat''"]
  by (simp add: RATE_LIMITS_chat_def checkRateLimit_def resetWindows_def lookupOrCreate_def
      Let_def)

text \<open>
  Claim C9 (the policy as the single source of quotas) at the \<open>health\<close> route, whose
  policy allows 60 requests per minute: after one admitted request \<open>checkRateLimit\<close>
  reports 59 remaining, while \<open>getRemainingRequests\<close> reports 29 for the same entry, and
  30 for a caller with no entry.
\<close>

theorem getRemainingRequests_hard_coded:
  "remaining (fst (checkRateLimit 0 Map.empty ''1.2.3.4'' ''health'' RATE_LIMITS_health)) = Some 59
 \<and> getRemainingRequests 1
      (snd (checkRateLimit 0 Map.empty ''1.2.3.4'' ''health'' RATE_LIMITS_health))
      ''1.2.3.4'' ''health'' = 29
 \<and> getRemainingRequests 0 Map.empty ''1.2.3.4'' ''health'' = 30
 \<and> perMinute RATE_LIMITS_health = 60"
  by (simp add: getRemainingRequests_def checkRateLimit_def resetWindows_def
      lookupOrCreate_def getKey_def RATE_LIMITS_health_def Let_def)

section \<open>Error classification: theorems\<close>

text \<open>Decimal strings: \<open>parseInt\<close> reads back what \<open>string_of_nat\<close> writes.\<close>

lemma digit_cases:
  assumes "d < (10::nat)"
  shows "d = 0 \<or> d = 1 \<or> d = 2 \<or> d = 3 \<or> d = 4 \<or> d = 5 \<or> d = 6 \<or> d = 7 \<or> d = 8 \<or> d = 9"
  using assms by arith

lemma of_char_digit_char:
  assumes "d < 10"
  shows "(of_char (digit_char d) :: nat) = 48 + d"
  using digit_cases [OF assms] by (auto simp: digit_char_def)

lemma digit_value_digit_char:
  assumes "d < 10"
  shows "digit_value (digit_char d) = Some d"
  using assms by (simp add: digit_value_def of_char_digit_char)

lemma is_digit_digit_char:
  assumes "d < 10"
  shows "is_digit 10 (digit_char d)"
  using assms by (simp add: is_digit_def digit_value_digit_char)

lemma not_space_digit_char:
  assumes "d < 10"
  shows "\<not> isWhiteSpace (digit_char d)"
  using assms by (simp add: isWhiteSpace_def of_char_digit_char)

lemma digit_char_not_sign:
  assumes "d < 10"
  shows "digit_char d \<noteq> CHR ''-''" and "digit_char d \<noteq> CHR ''+''"
    and "digit_char d \<noteq> CHR ''x''" and "digit_char d \<noteq> CHR ''X''"
  using digit_cases [OF assms] by (auto simp: digit_char_def)

lemma decimal_string_of_nat: "decimal (string_of_nat n)"
proof (induction n rule: string_of_nat.induct)
  case (1 n)
  show ?case
  proof (cases "n < 10")
    case True
    then show ?thesis by (subst string_of_nat.simps) (simp add: decimal_def)
  next
    case False
    then have "decimal (string_of_nat (n div 10))" using 1 by simp
    moreover have "n mod 10 < 10" by simp
    ultimately show ?thesis
      using False by (subst string_of_nat.simps) (simp add: decimal_def)
  qed
qed

lemma digits_value_snoc:
  "digits_value R (Z @ [c]) =
     R * digits_value R Z + (case digit_value c of Some d \<Rightarrow> d | None \<Rightarrow> 0)"
  by (simp add: digits_value_def)

lemma digits_value_string_of_nat: "digits_value 10 (string_of_nat n) = n"
proof (induction n rule: string_of_nat.induct)
  case (1 n)
  show ?case
  proof (cases "n < 10")
    case True
    then show ?thesis
      by (subst string_of_nat.simps) (simp add: digits_value_def digit_value_digit_char)
  next
    case False
    then have "digits_value 10 (string_of_nat (n div 10)) = n div 10" using 1 by simp
    then show ?thesis
      using False
      by (subst string_of_nat.simps) (simp add: digits_value_snoc digit_value_digit_char)
  qed
qed

lemma parseInt_decimal:
  assumes "decimal s"
  shows "parseInt s = js_integer (int (digits_value 10 s))"
proof -
  from assms obtain c cs where s: "s = c # cs" by (cases s) (auto simp: decimal_def)
  from assms have all: "\<And>x. x \<in> set s \<Longrightarrow> x \<in> digit_char ` {0..<10}"
    by (simp add: decimal_def list_all_iff)
  have c: "c \<in> digit_char ` {0..<10}" using all s by simp
  then have nospace: "\<not> isWhiteSpace c" and nosign: "c \<noteq> CHR ''-''" "c \<noteq> CHR ''+''"
    using not_space_digit_char digit_char_not_sign by auto
  have S: "dropWhile isWhiteSpace s = s" using s nospace by simp
  have nohex: "take 2 s \<noteq> ''0x''" "take 2 s \<noteq> ''0X''"
  proof -
    show "take 2 s \<noteq> ''0x''"
    proof
      assume "take 2 s = ''0x''"
      then have "CHR ''x'' \<in> set (take 2 s)" by simp
      then have "CHR ''x'' \<in> set s" by (rule in_set_takeD)
      then show False using all digit_char_not_sign(3) by fastforce
    qed
    show "take 2 s \<noteq> ''0X''"
    proof
      assume "take 2 s = ''0X''"
      then have "CHR ''X'' \<in> set (take 2 s)" by simp
      then have "CHR ''X'' \<in> set s" by (rule in_set_takeD)
      then show False using all digit_char_not_sign(4) by fastforce
    qed
  qed
  have Z: "takeWhile (is_digit 10) s = s"
    using all is_digit_digit_char by (fastforce simp: takeWhile_eq_all_conv)
  have sgn: "take 1 s \<noteq> ''-''" "take 1 s \<noteq> ''+''" using s nosign by simp_all
  have ne: "s \<noteq> []" using s by simp
  show ?thesis
    using nohex sgn ne by (simp add: parseInt_def Let_def S Z)
qed

lemma parseInt_string_of_nat: "parseInt (string_of_nat n) = js_integer (int n)"
  by (simp add: parseInt_decimal decimal_string_of_nat digits_value_string_of_nat)

lemma parseInt_60: "parseInt ''60'' = Num 60"
  by (simp add: parseInt_def isWhiteSpace_def is_digit_def digit_value_def digits_value_def
      js_integer_def)

lemma times1000_exact:
  assumes "int n * 1000 < 2 ^ 53"
  shows "times1000 (js_integer (int n)) = Num (int n * 1000)"
proof -
  have "int n < 2 ^ 53" using assms by simp
  then show ?thesis using assms by (simp add: js_integer_def)
qed


text \<open>
  Claim C5 (classification of HTTP responses). For every response, in particular every
  non-ok one: a status of 500 or more gives a retryable \<open>Server\<close> error; 429 gives a
  retryable \<open>RateLimit\<close> error whose \<open>retryAfter\<close> is 60000 ms when the header
  \<open>Retry-After\<close> is absent or empty, \<open>n * 1000\<close> ms when the header is the decimal number
  \<open>n\<close> and \<open>n * 1000\<close> is below \<open>2^53\<close>, where doubles are exact, and in general 1000
  times what \<open>parseInt\<close> reads from the header; 401 and 403 give a non-retryable \<open>Auth\<close>
  error; every other status from 400 to 499 gives a non-retryable \<open>Client\<close> error. Each
  error carries the status.
\<close>

theorem handleHttpError_classification:
  "(500 \<le> status r \<longrightarrow>
      type (handleHttpError r) = Server \<and> retryable (handleHttpError r))
 \<and> (status r = 429 \<longrightarrow>
      type (handleHttpError r) = RateLimit \<and> retryable (handleHttpError r)
    \<and> (retryAfterHeader r = None \<or> retryAfterHeader r = Some []
         \<longrightarrow> retryAfter (handleHttpError r) = Some (Num 60000))
    \<and> (retryAfterHeader r = Some (string_of_nat n) \<and> int n * 1000 < 2 ^ 53
         \<longrightarrow> retryAfter (handleHttpError r) = Some (Num (int n * 1000)))
    \<and> (retryAfterHeader r = Some h \<and> h \<noteq> []
         \<longrightarrow> retryAfter (handleHttpError r) = Some (times1000 (parseInt h))))
 \<and> (status r = 401 \<or> status r = 403 \<longrightarrow>
      type (handleHttpError r) = Auth \<and> \<not> retryable (handleHttpError r))
 \<and> (400 \<le> status r \<and> status r < 500 \<and> status r \<noteq> 429 \<and> status r \<noteq> 401 \<and> status r \<noteq> 403 \<longrightarrow>
      type (handleHttpError r) = Client \<and> \<not> retryable (handleHttpError r))
 \<and> statusCode (handleHttpError r) = Some (status r)"
proof -
  have nonempty: "string_of_nat n \<noteq> []"
    using decimal_string_of_nat [of n] by (simp add: decimal_def)
  show ?thesis
    using nonempty
    by (auto simp: handleHttpError_def createApiError_def js_or_def Let_def
        parseInt_60 parseInt_string_of_nat times1000_exact js_integer_def)
qed

text \<open>
  The five classes at concrete responses, and a header of 5 seconds behind a no-break
  space.
\<close>

theorem handleHttpError_classification_witness:
  "type (handleHttpError \<lparr>status = 503, statusText = ''Service Unavailable'',
      retryAfterHeader = None, json = None\<rparr>) = Server
 \<and> retryable (handleHttpError \<lparr>status = 503, statusText = ''Service Unavailable'',
      retryAfterHeader = None, json = None\<rparr>)
 \<and> type (handleHttpError \<lparr>status = 429, statusText = '''', retryAfterHeader = None,
      json = None\<rparr>) = RateLimit
 \<and> retryAfter (handleHttpError \<lparr>status = 429, statusText = '''', retryAfterHeader = None,
      json = None\<rparr>) = Some (Num 60000)
 \<and> retryable (handleHttpError \<lparr>status = 429, statusText = '''',
      retryAfterHeader = Some ''120'', json = None\<rparr>)
 \<and> retryAfter (handleHttpError \<lparr>status = 429, statusText = '''',
      retryAfterHeader = Some ''120'', json = None\<rparr>) = Some (Num 120000)
 \<and> type (handleHttpError \<lparr>status = 403, statusText = ''Forbidden'', retryAfterHeader = None,
      json = None\<rparr>) = Auth
 \<and> \<not> retryable (handleHttpError \<lparr>status = 403, statusText = ''Forbidden'',
      retryAfterHeader = None, json = None\<rparr>)
 \<and> type (handleHttpError \<lparr>status = 404, statusText = '''', retryAfterHeader = None,
      json = Some [(''error'', ''No such route'')]\<rparr>) = Client
 \<and> \<not> retryable (handleHttpError \<lparr>status = 404, statusText = '''', retryAfterHeader = None,
      json = Some [(''error'', ''No such route'')]\<rparr>)
 \<and> retryAfter (handleHttpError \<lparr>status = 429, statusText = '''',
      retryAfterHeader = Some [CHR 0xA0, CHR ''5''], json = None\<rparr>) = Some (Num 5000)"
proof -
  have n120: "string_of_nat 120 = ''120''"
    by (simp add: string_of_nat.simps digit_char_def)
  have nbsp: "parseInt [CHR 0xA0, CHR ''5''] = Num 5"
    by (simp add: parseInt_def isWhiteSpace_def is_digit_def digit_value_def digits_value_def
        js_integer_def)
  have spaced: "retryAfter (handleHttpError \<lparr>status = 429, statusText = '''',
      retryAfterHeader = Some [CHR 0xA0, CHR ''5''], json = None\<rparr>) = Some (Num 5000)"
    using handleHttpError_classification [of
        "\<lparr>status = 429, statusText = '''', retryAfterHeader = Some [CHR 0xA0, CHR ''5''],
          json = None\<rparr>" 0 "[CHR 0xA0, CHR ''5'']"]
    by (simp add: nbsp js_integer_def)
  show ?thesis
    using spaced
      handleHttpError_classification [of
        "\<lparr>status = 503, statusText = ''Service Unavailable'', retryAfterHeader = None,
          json = None\<rparr>" 0 "[]"]
      handleHttpError_classification [of
        "\<lparr>status = 429, statusText = '''', retryAfterHeader = None, json = None\<rparr>" 0 "[]"]
      handleHttpError_classification [of
        "\<lparr>status = 429, statusText = '''', retryAfterHeader = Some ''120'', json = None\<rparr>"
        120 "[]"]
      handleHttpError_classification [of
        "\<lparr>status = 403, statusText = ''Forbidden'', retryAfterHeader = None, json = None\<rparr>"
        0 "[]"]
      handleHttpError_classification [of
        "\<lparr>status = 404, statusText = '''', retryAfterHeader = None,
          json = Some [(''error'', ''No such route'')]\<rparr>" 0 "[]"]
    by (simp add: n120)
qed

text \<open>
  A header that holds an HTTP date, the other form of \<open>Retry-After\<close>, is read as \<open>NaN\<close>,
  and a number of seconds beyond the exact range of doubles is not followed.
\<close>

lemma handleHttpError_date_header:
  "retryAfter (handleHttpError \<lparr>status = 429, statusText = '''',
      retryAfterHeader = Some ''Wed, 21 Oct 2015 07:28:00 GMT'', json = None\<rparr>) = Some NaN"
  by (simp add: handleHttpError_def createApiError_def js_or_def
      parseInt_def isWhiteSpace_def is_digit_def digit_value_def digits_value_def)

lemma handleHttpError_large_header:
  "retryAfter (handleHttpError \<lparr>status = 429, statusText = '''',
      retryAfterHeader = Some ''9007199254740993'', json = None\<rparr>) = Some Large
 \<and> retryAfter (handleHttpError \<lparr>status = 429, statusText = '''',
      retryAfterHeader = Some ''9007199254741'', json = None\<rparr>) = Some Large
 \<and> retryAfter (handleHttpError \<lparr>status = 429, statusText = '''',
      retryAfterHeader = Some ''9007199254740'', json = None\<rparr>) = Some (Num 9007199254740000)"
  by (simp add: handleHttpError_def createApiError_def js_or_def js_integer_def
      parseInt_def isWhiteSpace_def is_digit_def digit_value_def digits_value_def)

text \<open>The message: the body's \<open>error\<close>, else the status text, else \<open>HTTP\<close> and the status.\<close>

lemma handleHttpError_messages:
  "message (handleHttpError \<lparr>status = 404, statusText = ''Not Found'', retryAfterHeader = None,
      json = Some [(''error'', ''No such route'')]\<rparr>) = ''No such route''
 \<and> message (handleHttpError \<lparr>status = 404, statusText = ''Not Found'', retryAfterHeader = None,
      json = None\<rparr>) = ''Not Found''
 \<and> message (handleHttpError \<lparr>status = 404, statusText = '''', retryAfterHeader = None,
      json = Some []\<rparr>) = ''HTTP 404''"
  by (simp add: handleHttpError_def createApiError_def js_or_def Let_def
      string_of_nat.simps digit_char_def)

section \<open>Retry delay: theorems\<close>

lemma retryDelay_power_mono:
  assumes "n < m"
  shows "retryDelay * 2 ^ n < retryDelay * 2 ^ m"
  using assms by (simp add: retryDelay_def)

text \<open>
  Claim C7 (retry backoff). With \<open>B = retryDelay * 2 ^ n\<close> and a random draw in
  \<open>[0, 1)\<close>, the delay is \<open>min (B + jitter) 30000\<close> for a jitter of at least 0 and less than
  a tenth of \<open>B\<close>; it never exceeds 30000. With the jitter left out (a draw of 0) the
  delay is \<open>min B 30000\<close>, it never decreases with the attempt number, and it increases
  strictly as long as it is below the cap.
\<close>

theorem calculateRetryDelay_backoff:
  "(0 \<le> rnd \<and> rnd < 1 \<longrightarrow>
      calculateRetryDelay n rnd =
        min (retryDelay * 2 ^ n + rnd * 0.1 * (retryDelay * 2 ^ n)) 30000
    \<and> 0 \<le> rnd * 0.1 * (retryDelay * 2 ^ n)
    \<and> rnd * 0.1 * (retryDelay * 2 ^ n) < 0.1 * (retryDelay * 2 ^ n))
 \<and> calculateRetryDelay n rnd \<le> 30000
 \<and> calculateRetryDelay n 0 = min (retryDelay * 2 ^ n) 30000
 \<and> (n < m \<and> calculateRetryDelay n 0 < 30000 \<longrightarrow>
      calculateRetryDelay n 0 < calculateRetryDelay m 0)
 \<and> (n \<le> m \<longrightarrow> calculateRetryDelay n 0 \<le> calculateRetryDelay m 0)"
proof (intro conjI impI)
  assume r: "0 \<le> rnd \<and> rnd < 1"
  show "calculateRetryDelay n rnd =
        min (retryDelay * 2 ^ n + rnd * 0.1 * (retryDelay * 2 ^ n)) 30000"
    by (simp add: calculateRetryDelay_def Let_def)
  have pos: "0 < retryDelay * 2 ^ n" by (simp add: retryDelay_def)
  show "0 \<le> rnd * 0.1 * (retryDelay * 2 ^ n)"
    using r pos by simp
  have "rnd * (0.1 * (retryDelay * 2 ^ n)) < 1 * (0.1 * (retryDelay * 2 ^ n))"
    using r pos by (intro mult_strict_right_mono) simp_all
  then show "rnd * 0.1 * (retryDelay * 2 ^ n) < 0.1 * (retryDelay * 2 ^ n)"
    by (simp add: mult.assoc)
next
  show "calculateRetryDelay n rnd \<le> 30000"
    by (simp add: calculateRetryDelay_def Let_def)
next
  show "calculateRetryDelay n 0 = min (retryDelay * 2 ^ n) 30000"
    by (simp add: calculateRetryDelay_def Let_def)
next
  assume a: "n < m \<and> calculateRetryDelay n 0 < 30000"
  then have "retryDelay * 2 ^ n < retryDelay * 2 ^ m"
    using retryDelay_power_mono by simp
  then show "calculateRetryDelay n 0 < calculateRetryDelay m 0"
    using a by (simp add: calculateRetryDelay_def Let_def min_def split: if_splits)
next
  assume a: "n \<le> m"
  have "retryDelay * 2 ^ n \<le> retryDelay * 2 ^ m"
  proof (cases "n = m")
    case True
    then show ?thesis by simp
  next
    case False
    then have "n < m" using a by simp
    then show ?thesis using retryDelay_power_mono [of n m] by simp
  qed
  then show "calculateRetryDelay n 0 \<le> calculateRetryDelay m 0"
    by (simp add: calculateRetryDelay_def Let_def min_def)
qed

text \<open>The delays of attempts 0 to 6 without jitter, and one delay with a draw of one half.\<close>

lemma calculateRetryDelay_values:
  "map (\<lambda>n. calculateRetryDelay n 0) [0, 1, 2, 3, 4, 5, 6] =
     [1000, 2000, 4000, 8000, 16000, 30000, 30000]"
  by (simp add: calculateRetryDelay_def retryDelay_def Let_def)

theorem calculateRetryDelay_backoff_witness:
  "(0::real) \<le> 1 / 2 \<and> (1::real) / 2 < 1
 \<and> calculateRetryDelay 1 (1 / 2) = 2100
 \<and> calculateRetryDelay 1 0 = 2000 \<and> calculateRetryDelay 2 0 = 4000
 \<and> calculateRetryDelay 1 0 < calculateRetryDelay 2 0
 \<and> calculateRetryDelay 1 (1 / 2) \<le> 30000"
  using calculateRetryDelay_backoff [of "1 / 2" 1 2]
  by (simp add: calculateRetryDelay_def retryDelay_def Let_def)

section \<open>Introspection: theorems\<close>

lemma getMetrics_state: "snd (getMetrics now s) = snd (isCircuitBreakerOpen now s)"
  by (simp add: getMetrics_def getConnectionStatus_def Let_def split: prod.splits)

lemma isCircuitBreakerOpen_frame:
  "requestQueue (snd (isCircuitBreakerOpen now s)) = requestQueue s
 \<and> connectionStatus (snd (isCircuitBreakerOpen now s)) = connectionStatus s"
  by (simp add: isCircuitBreakerOpen_def Let_def split: option.splits)

text \<open>
  The reset that \<open>isCircuitBreakerOpen\<close> performs at \<open>now\<close> is the one it would perform at
  any later time.
\<close>

lemma isCircuitBreakerOpen_again:
  assumes "now \<le> t"
  shows "isCircuitBreakerOpen t (snd (isCircuitBreakerOpen now s)) = isCircuitBreakerOpen t s"
  using assms
  by (auto simp: isCircuitBreakerOpen_def circuitBreakerThreshold_def Let_def
      split: option.splits)

text \<open>
  Claim C6 (read-only introspection) fails for \<open>getMetrics\<close>. Five requests that fail
  with an unrecognised error leave the breaker with a count of 5. A \<open>getMetrics\<close> made
  more than 60 s after the last failure resets the two breaker fields, and a second
  \<open>getMetrics\<close> then reports 0 failures where it would have reported 5.
\<close>

theorem getMetrics_mutates:
  "circuitBreakerFailures
     (snd (snd (requests (always (OtherError 100)) 1 5 world0 service0))) = 5
 \<and> circuitBreakerFailures
     (snd (getMetrics 70000
        (snd (snd (requests (always (OtherError 100)) 1 5 world0 service0))))) = 0
 \<and> circuitBreakerLastFailure
     (snd (getMetrics 70000
        (snd (snd (requests (always (OtherError 100)) 1 5 world0 service0))))) = None
 \<and> metricsFailures
     (fst (getMetrics 70001
        (snd (getMetrics 70000
           (snd (snd (requests (always (OtherError 100)) 1 5 world0 service0))))))) = 0
 \<and> metricsFailures
     (fst (getMetrics 70001
        (snd (snd (requests (always (OtherError 100)) 1 5 world0 service0))))) = 5"
  by code_simp

text \<open>
  Claim C6 as amended. \<open>getConnectionStatus\<close> leaves the state as it is. \<open>getMetrics\<close>
  leaves the request queue and the connection status as they are, and leaves the breaker
  fields as they are unless the count has reached the threshold and more than 60000 ms
  have passed since the last failure; then it sets the count to 0 and clears the time of
  the last failure. The state it leaves is the state \<open>isCircuitBreakerOpen\<close> leaves, so a
  later \<open>makeRequest\<close>, at a clock that is not before \<open>now\<close>, returns the same result,
  world and state as it does without the call of \<open>getMetrics\<close>.
\<close>

theorem introspection_frame:
  "snd (getConnectionStatus s) = s
 \<and> requestQueue (snd (getMetrics now s)) = requestQueue s
 \<and> connectionStatus (snd (getMetrics now s)) = connectionStatus s
 \<and> (circuitBreakerFailures s < circuitBreakerThreshold \<longrightarrow> snd (getMetrics now s) = s)
 \<and> (circuitBreakerLastFailure s = None \<longrightarrow> snd (getMetrics now s) = s)
 \<and> (circuitBreakerLastFailure s = Some t \<and> now - t \<le> circuitBreakerResetTime \<longrightarrow>
      snd (getMetrics now s) = s)
 \<and> (circuitBreakerThreshold \<le> circuitBreakerFailures s
      \<and> circuitBreakerLastFailure s = Some t \<and> circuitBreakerResetTime < now - t \<longrightarrow>
      snd (getMetrics now s) =
        s\<lparr>circuitBreakerFailures := 0, circuitBreakerLastFailure := None\<rparr>)
 \<and> (now \<le> clock w \<longrightarrow>
      makeRequest env retryCount w (snd (getMetrics now s)) = makeRequest env retryCount w s)"
proof (intro conjI impI)
  show "snd (getConnectionStatus s) = s"
    by (simp add: getConnectionStatus_def)
  show "requestQueue (snd (getMetrics now s)) = requestQueue s"
    by (simp add: getMetrics_state isCircuitBreakerOpen_frame)
  show "connectionStatus (snd (getMetrics now s)) = connectionStatus s"
    by (simp add: getMetrics_state isCircuitBreakerOpen_frame)
  show "snd (getMetrics now s) = s" if "circuitBreakerFailures s < circuitBreakerThreshold"
    using that by (simp add: getMetrics_state isCircuitBreakerOpen_def)
  show "snd (getMetrics now s) = s" if "circuitBreakerLastFailure s = None"
    using that by (simp add: getMetrics_state isCircuitBreakerOpen_def)
  show "snd (getMetrics now s) = s"
    if "circuitBreakerLastFailure s = Some t \<and> now - t \<le> circuitBreakerResetTime"
    using that by (simp add: getMetrics_state isCircuitBreakerOpen_def)
  show "snd (getMetrics now s) =
        s\<lparr>circuitBreakerFailures := 0, circuitBreakerLastFailure := None\<rparr>"
    if "circuitBreakerThreshold \<le> circuitBreakerFailures s
        \<and> circuitBreakerLastFailure s = Some t \<and> circuitBreakerResetTime < now - t"
    using that by (simp add: getMetrics_state isCircuitBreakerOpen_def)
  show "makeRequest env retryCount w (snd (getMetrics now s)) = makeRequest env retryCount w s"
    if "now \<le> clock w"
    using that
    by (simp add: getMetrics_state isCircuitBreakerOpen_again
        makeRequest.simps [of env retryCount w "snd (isCircuitBreakerOpen now s)"]
        makeRequest.simps [of env retryCount w s])
qed

theorem introspection_frame_witness:
  "snd (getMetrics 30000 tripped) = tripped
 \<and> snd (getMetrics 60001 tripped) =
      tripped\<lparr>circuitBreakerFailures := 0, circuitBreakerLastFailure := None\<rparr>
 \<and> snd (getMetrics 5 service0) = service0
 \<and> makeRequest (always (Responds badRequest 100)) 0 (world0\<lparr>clock := 60005\<rparr>)
      (snd (getMetrics 60001 tripped))
    = makeRequest (always (Responds badRequest 100)) 0 (world0\<lparr>clock := 60005\<rparr>) tripped"
proof -
  let ?w = "world0\<lparr>clock := 60005\<rparr>" and ?env = "always (Responds badRequest 100)"
  have closed: "snd (getMetrics 30000 tripped) = tripped"
    using introspection_frame [of tripped 30000 0 ?w ?env 0]
    by (simp add: tripped_def circuitBreakerResetTime_def)
  have reset: "snd (getMetrics 60001 tripped) =
      tripped\<lparr>circuitBreakerFailures := 0, circuitBreakerLastFailure := None\<rparr>"
    using introspection_frame [of tripped 60001 0 ?w ?env 0]
    by (simp add: tripped_def circuitBreakerThreshold_def circuitBreakerResetTime_def)
  have fresh: "snd (getMetrics 5 service0) = service0"
    using introspection_frame [of service0 5 0 ?w ?env 0]
    by (simp add: service0_def newApiService_def circuitBreakerThreshold_def)
  have later: "makeRequest ?env 0 ?w (snd (getMetrics 60001 tripped)) = makeRequest ?env 0 ?w tripped"
    using introspection_frame [of tripped 60001 0 ?w ?env 0]
    by (simp add: world0_def)
  from closed reset fresh later show ?thesis by blast
qed

section \<open>makeRequest: circuit breaker and retries\<close>

text \<open>What one call does, by the result of \<open>fetch\<close>, when the breaker is closed and the service online.\<close>

lemma makeRequest_open:
  assumes "fst (isCircuitBreakerOpen (clock w) s)"
  shows "makeRequest env retryCount w s =
     (Inl (createApiError Server ''Service temporarily unavailable'' (Some 503) False None), w, s)"
proof -
  have "snd (isCircuitBreakerOpen (clock w) s) = s"
    using assms by (auto simp: isCircuitBreakerOpen_def Let_def split: if_splits option.splits)
  then show ?thesis
    using assms by (subst makeRequest.simps) (simp add: split_beta)
qed

lemma isCircuitBreakerOpen_iff:
  "fst (isCircuitBreakerOpen now s) \<longleftrightarrow>
     circuitBreakerThreshold \<le> circuitBreakerFailures s
     \<and> (\<exists>t. circuitBreakerLastFailure s = Some t \<and> now - t \<le> circuitBreakerResetTime)"
  by (auto simp: isCircuitBreakerOpen_def Let_def split: option.splits)

lemma makeRequest_aborted:
  assumes "\<not> fst (isCircuitBreakerOpen (clock w) s)"
    and "isOnline (connectionStatus s)"
    and "fetch env (fetchCalls w) = Aborted"
  shows "makeRequest env retryCount w s =
     (Inl (createApiError Timeout ''Request timed out'' None True None),
      afterFetch timeout w, snd (isCircuitBreakerOpen (clock w) s))"
  using assms isCircuitBreakerOpen_frame [of "clock w" s]
  by (subst makeRequest.simps) (simp add: split_beta)

lemma makeRequest_fetch_type_error:
  assumes "\<not> fst (isCircuitBreakerOpen (clock w) s)"
    and "isOnline (connectionStatus s)"
    and "fetch env (fetchCalls w) = FetchTypeError ms"
  shows "makeRequest env retryCount w s =
     (Inl (createApiError Network ''Network connection failed'' None True None),
      afterFetch ms w, snd (isCircuitBreakerOpen (clock w) s))"
  using assms isCircuitBreakerOpen_frame [of "clock w" s]
  by (subst makeRequest.simps) (simp add: split_beta)

lemma makeRequest_other_error:
  assumes "\<not> fst (isCircuitBreakerOpen (clock w) s)"
    and "isOnline (connectionStatus s)"
    and "fetch env (fetchCalls w) = OtherError ms"
  shows "makeRequest env retryCount w s =
     (Inl (createApiError Unknown ''An unexpected error occurred'' None False None),
      afterFetch ms w,
      recordFailure (clock w + ms) (snd (isCircuitBreakerOpen (clock w) s)))"
  using assms isCircuitBreakerOpen_frame [of "clock w" s]
  by (subst makeRequest.simps) (simp add: split_beta Let_def afterFetch_def)


lemma makeRequest_offline:
  assumes "\<not> fst (isCircuitBreakerOpen (clock w) s)"
    and "\<not> isOnline (connectionStatus s)"
  shows "makeRequest env retryCount w s =
     (Inl (createApiError Network ''No internet connection'' None True None),
      w, snd (isCircuitBreakerOpen (clock w) s))"
  using assms isCircuitBreakerOpen_frame [of "clock w" s]
  by (subst makeRequest.simps) (simp add: split_beta)

lemma makeRequest_responds:
  assumes "\<not> fst (isCircuitBreakerOpen (clock w) s)"
    and "isOnline (connectionStatus s)"
    and "fetch env (fetchCalls w) = Responds r ms"
    and "w1 = afterFetch ms w"
    and "s2 = (snd (isCircuitBreakerOpen (clock w) s))
           \<lparr>connectionStatus :=
              (connectionStatus (snd (isCircuitBreakerOpen (clock w) s)))
                \<lparr>responseTime := Some (clock w1 - clock w), lastChecked := clock w1\<rparr>,
            circuitBreakerFailures := 0,
            circuitBreakerLastFailure := None\<rparr>"
  shows "makeRequest env retryCount w s =
      (if \<not> ok r then
         (if retryable (handleHttpError r) \<and> retryCount < maxRetries
          then makeRequest env (retryCount + 1)
                 (sleep (calculateRetryDelay retryCount (random env (randomCalls w1)))
                    (w1\<lparr>randomCalls := randomCalls w1 + 1\<rparr>))
                 (recordFailure (clock w1) s2)
          else (Inl (handleHttpError r), w1, recordFailure (clock w1) s2))
       else (case json r of
               Some data \<Rightarrow> (Inr data, w1, s2)
             | None \<Rightarrow>
                 (Inl (createApiError Unknown ''An unexpected error occurred'' None False None),
                  w1, recordFailure (clock w1) s2)))"
  unfolding assms(5) assms(4)
  using assms(1-3) isCircuitBreakerOpen_frame [of "clock w" s]
  by (subst makeRequest.simps) (simp add: split_beta Let_def split: option.splits)

text \<open>A request that returns a body leaves the breaker reset.\<close>

lemma success_resets_breaker:
  assumes "fst (makeRequest env retryCount w s) = Inr data"
  shows "circuitBreakerFailures (snd (snd (makeRequest env retryCount w s))) = 0
       \<and> circuitBreakerLastFailure (snd (snd (makeRequest env retryCount w s))) = None"
  using assms
proof (induction "maxRetries - retryCount" arbitrary: retryCount w s rule: less_induct)
  case less
  have closed: "\<not> fst (isCircuitBreakerOpen (clock w) s)"
    using less.prems makeRequest_open [of w s env retryCount] by auto
  have online: "isOnline (connectionStatus s)"
  proof (rule ccontr)
    assume "\<not> isOnline (connectionStatus s)"
    then have "\<exists>e. fst (makeRequest env retryCount w s) = Inl e"
      using closed makeRequest_offline [of w s env retryCount] by simp
    then show False using less.prems by simp
  qed
  obtain r ms where f: "fetch env (fetchCalls w) = Responds r ms"
    using less.prems closed online
      makeRequest_aborted [of w s env retryCount]
      makeRequest_fetch_type_error [of w s env _ retryCount]
      makeRequest_other_error [of w s env _ retryCount]
    by (cases "fetch env (fetchCalls w)") auto
  define w1 where "w1 = afterFetch ms w"
  define s2 where "s2 = (snd (isCircuitBreakerOpen (clock w) s))
           \<lparr>connectionStatus :=
              (connectionStatus (snd (isCircuitBreakerOpen (clock w) s)))
                \<lparr>responseTime := Some (clock w1 - clock w), lastChecked := clock w1\<rparr>,
            circuitBreakerFailures := 0,
            circuitBreakerLastFailure := None\<rparr>"
  note unfold = makeRequest_responds [OF closed online f w1_def s2_def, of retryCount]
  show ?case
  proof (cases "\<not> ok r \<and> retryable (handleHttpError r) \<and> retryCount < maxRetries")
    case True
    let ?w2 = "sleep (calculateRetryDelay retryCount (random env (randomCalls w1)))
                    (w1\<lparr>randomCalls := randomCalls w1 + 1\<rparr>)"
    let ?s3 = "recordFailure (clock w1) s2"
    have eq: "makeRequest env retryCount w s = makeRequest env (retryCount + 1) ?w2 ?s3"
      using True unfold by simp
    have "maxRetries - (retryCount + 1) < maxRetries - retryCount"
      using True by arith
    moreover have "fst (makeRequest env (retryCount + 1) ?w2 ?s3) = Inr data"
      using less.prems eq by simp
    ultimately show ?thesis
      using less.hyps eq by metis
  next
    case False
    then show ?thesis
      using unfold less.prems by (auto simp: s2_def split: option.splits if_splits)
  qed
qed

text \<open>Every call of \<open>fetch\<close> resolves with a response.\<close>

lemma idle_breaker_closed:
  assumes "circuitBreakerFailures s < circuitBreakerThreshold"
  shows "isCircuitBreakerOpen now s = (False, s)"
  using assms by (simp add: isCircuitBreakerOpen_def)

lemma responses_keep_breaker_closed:
  assumes resp: "\<And>k. \<exists>r ms. fetch env k = Responds r ms"
    and "\<not> fst (isCircuitBreakerOpen (clock w) s)"
    and "isOnline (connectionStatus s)"
  shows "circuitBreakerFailures (snd (snd (makeRequest env retryCount w s))) \<le> 1"
  using assms(2,3)
proof (induction "maxRetries - retryCount" arbitrary: retryCount w s rule: less_induct)
  case less
  obtain r ms where f: "fetch env (fetchCalls w) = Responds r ms"
    using resp by blast
  let ?s1 = "snd (isCircuitBreakerOpen (clock w) s)"
  let ?w1 = "afterFetch ms w"
  let ?s2 = "?s1\<lparr>connectionStatus :=
                 (connectionStatus ?s1)\<lparr>responseTime := Some (clock ?w1 - clock w),
                                         lastChecked := clock ?w1\<rparr>,
               circuitBreakerFailures := 0,
               circuitBreakerLastFailure := None\<rparr>"
  let ?s3 = "recordFailure (clock ?w1) ?s2"
  let ?w2 = "sleep (calculateRetryDelay retryCount (random env (randomCalls ?w1)))
               (?w1\<lparr>randomCalls := randomCalls ?w1 + 1\<rparr>)"
  have online: "isOnline (connectionStatus ?s1)"
    using less.prems isCircuitBreakerOpen_frame [of "clock w" s] by simp
  have unfold: "makeRequest env retryCount w s =
      (if \<not> ok r then
         (if retryable (handleHttpError r) \<and> retryCount < maxRetries
          then makeRequest env (retryCount + 1) ?w2 ?s3
          else (Inl (handleHttpError r), ?w1, ?s3))
       else (case json r of
               Some data \<Rightarrow> (Inr data, ?w1, ?s2)
             | None \<Rightarrow>
                 (Inl (createApiError Unknown ''An unexpected error occurred'' None False None),
                  ?w1, recordFailure (clock ?w1) ?s2)))"
    using less.prems online f
    by (subst makeRequest.simps) (simp add: split_beta Let_def)
  have one: "circuitBreakerFailures ?s3 = 1"
    by (simp add: recordFailure_def)
  show ?case
  proof (cases "\<not> ok r \<and> retryable (handleHttpError r) \<and> retryCount < maxRetries")
    case True
    have closed: "\<not> fst (isCircuitBreakerOpen (clock ?w2) ?s3)"
      using one by (simp add: idle_breaker_closed circuitBreakerThreshold_def)
    have online3: "isOnline (connectionStatus ?s3)"
      using online by (simp add: recordFailure_def)
    have "maxRetries - (retryCount + 1) < maxRetries - retryCount"
      using True by arith
    then have "circuitBreakerFailures
        (snd (snd (makeRequest env (retryCount + 1) ?w2 ?s3))) \<le> 1"
      using less.hyps closed online3 by blast
    then show ?thesis using True unfold by simp
  next
    case False
    then show ?thesis
      using unfold one by (auto simp: recordFailure_def split: option.splits)
  qed
qed

text \<open>Every call of \<open>fetch\<close> resolves with a status of 500 or more.\<close>

lemma server_errors_retried:
  assumes resp: "\<And>k. \<exists>r ms. fetch env k = Responds r ms \<and> 500 \<le> status r"
    and "\<not> fst (isCircuitBreakerOpen (clock w) s)"
    and "isOnline (connectionStatus s)"
    and "retryCount \<le> maxRetries"
  shows "fetchCalls (fst (snd (makeRequest env retryCount w s))) =
           fetchCalls w + (maxRetries - retryCount) + 1
       \<and> (\<exists>e. fst (makeRequest env retryCount w s) = Inl e \<and> type e = Server)"
  using assms(2,3,4)
proof (induction "maxRetries - retryCount" arbitrary: retryCount w s rule: less_induct)
  case less
  obtain r ms where f: "fetch env (fetchCalls w) = Responds r ms" and st: "500 \<le> status r"
    using resp by blast
  let ?s1 = "snd (isCircuitBreakerOpen (clock w) s)"
  let ?w1 = "afterFetch ms w"
  let ?s2 = "?s1\<lparr>connectionStatus :=
                 (connectionStatus ?s1)\<lparr>responseTime := Some (clock ?w1 - clock w),
                                         lastChecked := clock ?w1\<rparr>,
               circuitBreakerFailures := 0,
               circuitBreakerLastFailure := None\<rparr>"
  let ?s3 = "recordFailure (clock ?w1) ?s2"
  let ?w2 = "sleep (calculateRetryDelay retryCount (random env (randomCalls ?w1)))
               (?w1\<lparr>randomCalls := randomCalls ?w1 + 1\<rparr>)"
  have online: "isOnline (connectionStatus ?s1)"
    using less.prems isCircuitBreakerOpen_frame [of "clock w" s] by simp
  have notok: "\<not> ok r" using st by (simp add: ok_def)
  have err: "type (handleHttpError r) = Server" "retryable (handleHttpError r)"
    using st by (simp_all add: handleHttpError_def createApiError_def Let_def)
  have unfold: "makeRequest env retryCount w s =
      (if retryCount < maxRetries
       then makeRequest env (retryCount + 1) ?w2 ?s3
       else (Inl (handleHttpError r), ?w1, ?s3))"
    using less.prems online f notok err
    by (subst makeRequest.simps) (simp add: split_beta Let_def)
  show ?case
  proof (cases "retryCount < maxRetries")
    case True
    have closed: "\<not> fst (isCircuitBreakerOpen (clock ?w2) ?s3)"
      by (simp add: idle_breaker_closed circuitBreakerThreshold_def recordFailure_def)
    have online3: "isOnline (connectionStatus ?s3)"
      using online by (simp add: recordFailure_def)
    have "maxRetries - (retryCount + 1) < maxRetries - retryCount"
      and "retryCount + 1 \<le> maxRetries"
      using True by arith+
    then have "fetchCalls (fst (snd (makeRequest env (retryCount + 1) ?w2 ?s3))) =
           fetchCalls ?w2 + (maxRetries - (retryCount + 1)) + 1
       \<and> (\<exists>e. fst (makeRequest env (retryCount + 1) ?w2 ?s3) = Inl e \<and> type e = Server)"
      using less.hyps closed online3 by blast
    moreover have "fetchCalls ?w2 = fetchCalls w + 1"
      by (simp add: sleep_def afterFetch_def)
    ultimately show ?thesis using True unfold by simp
  next
    case False
    then show ?thesis
      using unfold err less.prems by (simp add: afterFetch_def)
  qed
qed

text \<open>A response that is classified as not retryable is surfaced after one call of \<open>fetch\<close>.\<close>

lemma not_retryable_surfaced:
  assumes "\<not> fst (isCircuitBreakerOpen (clock w) s)"
    and "isOnline (connectionStatus s)"
    and "fetch env (fetchCalls w) = Responds r ms"
    and "\<not> ok r" and "\<not> retryable (handleHttpError r)"
  shows "fst (makeRequest env retryCount w s) = Inl (handleHttpError r)
       \<and> fst (snd (makeRequest env retryCount w s)) = afterFetch ms w"
  using assms isCircuitBreakerOpen_frame [of "clock w" s]
  by (subst (1 2) makeRequest.simps) (simp add: split_beta Let_def)


text \<open>
  Five calls that fail without a response and are not recognised as network errors do
  open the breaker: the sixth call, 1 ms later, is refused with the synthetic 503 and
  no call of \<open>fetch\<close>, and a call made after the reset time is attempted again.
\<close>

lemma breaker_opens_on_unrecognised_failures:
  "circuitBreakerFailures (snd (snd (requests (always (OtherError 100)) 1 5 world0 service0))) = 5
 \<and> fetchCalls (fst (snd (requests (always (OtherError 100)) 1 5 world0 service0))) = 5
 \<and> fetchCalls (fst (snd (requests (always (OtherError 100)) 1 6 world0 service0))) = 5
 \<and> fst (requests (always (OtherError 100)) 1 6 world0 service0) ! 5 =
      Inl \<lparr>type = Server, message = ''Service temporarily unavailable'',
           statusCode = Some 503, retryable = False, retryAfter = None\<rparr>
 \<and> fetchCalls (fst (snd (requests (always (OtherError 100)) 60001 6 world0 service0))) = 6"
  by code_simp

text \<open>
  Claim C1 (circuit breaker) at five consecutive calls that each end in a failure. When
  the upstream answers every attempt with HTTP 503, each call fails after four attempts,
  yet the counter stands at 1 after the fifth call, the breaker is closed, and the
  sixth call, 1 ms later, makes four more attempts and returns the upstream's 503,
  not the breaker's. The same holds for HTTP 400. When every attempt times out, or fails
  with a network error, the five failed calls leave the counter at 0 and no time of a
  last failure.
\<close>

theorem breaker_misses_failures:
  "circuitBreakerFailures
     (snd (snd (requests (always (Responds serviceUnavailable 100)) 1 5 world0 service0))) = 1
 \<and> fetchCalls
     (fst (snd (requests (always (Responds serviceUnavailable 100)) 1 5 world0 service0))) = 20
 \<and> fetchCalls
     (fst (snd (requests (always (Responds serviceUnavailable 100)) 1 6 world0 service0))) = 24
 \<and> fst (requests (always (Responds serviceUnavailable 100)) 1 6 world0 service0) ! 5 =
      Inl \<lparr>type = Server, message = ''Service Unavailable'',
           statusCode = Some 503, retryable = True, retryAfter = None\<rparr>
 \<and> circuitBreakerFailures
     (snd (snd (requests (always (Responds badRequest 100)) 1 5 world0 service0))) = 1
 \<and> circuitBreakerFailures (snd (snd (requests (always Aborted) 1 5 world0 service0))) = 0
 \<and> circuitBreakerLastFailure (snd (snd (requests (always Aborted) 1 5 world0 service0))) = None
 \<and> fetchCalls (fst (snd (requests (always Aborted) 1 6 world0 service0))) = 6
 \<and> circuitBreakerFailures
     (snd (snd (requests (always (FetchTypeError 20)) 1 5 world0 service0))) = 0"
  by code_simp

text \<open>
  Claim C3 (retry policy) at a timeout and at a network failure: each is surfaced after
  one call of \<open>fetch\<close>, with no sleep and with \<open>retryable = True\<close>, while an HTTP 503 is
  surfaced after four calls of \<open>fetch\<close> and three sleeps.
\<close>

theorem timeout_and_network_not_retried:
  "makeRequest (always Aborted) 0 world0 service0 =
     (Inl \<lparr>type = Timeout, message = ''Request timed out'', statusCode = None,
           retryable = True, retryAfter = None\<rparr>,
      \<lparr>clock = 30000, fetchCalls = 1, randomCalls = 0\<rparr>, service0)
 \<and> makeRequest (always (FetchTypeError 20)) 0 world0 service0 =
     (Inl \<lparr>type = Network, message = ''Network connection failed'', statusCode = None,
           retryable = True, retryAfter = None\<rparr>,
      \<lparr>clock = 20, fetchCalls = 1, randomCalls = 0\<rparr>, service0)
 \<and> fst (snd (makeRequest (always (Responds serviceUnavailable 100)) 0 world0 service0)) =
     \<lparr>clock = 7400, fetchCalls = 4, randomCalls = 3\<rparr>"
  by code_simp

section \<open>Request deduplication: theorems\<close>

lemma requestKey_of_call:
  "sendChatMessage_call caller request a =
     (case map_of (requestQueue (service a)) (requestKey_of request) of
        Some queued \<Rightarrow> (queued, a\<lparr>waiting := waiting a @ [(caller, queued)]\<rparr>)
      | None \<Rightarrow>
          (promises a,
           a\<lparr>promises := Suc (promises a),
             inFlight := inFlight a @ [(promises a, requestKey_of request)],
             service := (service a)\<lparr>requestQueue :=
               requestQueue (service a) @ [(requestKey_of request, promises a)]\<rparr>,
             waiting := waiting a @ [(caller, promises a)]\<rparr>))"
  by (simp add: sendChatMessage_call_def requestKey_of_def map_set_def Let_def
      split: option.splits)

text \<open>In a list with distinct keys and distinct values, a key and its value select the same entries.\<close>

lemma key_iff_value:
  assumes "distinct (map fst q)" and "distinct (map snd q)"
    and "(k, p) \<in> set q" and "(k', p') \<in> set q"
  shows "k' = k \<longleftrightarrow> p' = p"
proof
  assume "k' = k"
  then show "p' = p"
    using assms(1,3,4) by (metis eq_key_imp_eq_value)
next
  assume "p' = p"
  have "distinct (map fst (map (\<lambda>(k, p). (p, k)) q))"
    using assms(2) by (simp add: comp_def case_prod_beta)
  moreover have "(p, k) \<in> set (map (\<lambda>(k, p). (p, k)) q)"
    and "(p, k') \<in> set (map (\<lambda>(k, p). (p, k)) q)"
    using assms(3,4) \<open>p' = p\<close> by force+
  ultimately show "k' = k"
    by (metis eq_key_imp_eq_value)
qed

lemma filter_key_value:
  assumes "distinct (map fst q)" and "distinct (map snd q)" and "(k, p) \<in> set q"
  shows "filter (\<lambda>(k', p'). p' \<noteq> p) q = filter (\<lambda>(k', p'). k' \<noteq> k) q"
proof (rule filter_cong)
  show "q = q" by simp
  fix x assume x: "x \<in> set q"
  obtain k' p' where kp: "x = (k', p')" by (cases x)
  then have "k' = k \<longleftrightarrow> p' = p"
    using key_iff_value [OF assms(1,2,3)] x by simp
  then show "(case x of (k', p') \<Rightarrow> p' \<noteq> p) = (case x of (k', p') \<Rightarrow> k' \<noteq> k)"
    using kp by simp
qed

lemma map_of_swapped:
  assumes "distinct (map fst q)" and "distinct (map snd q)"
  shows "map_of (map (\<lambda>(k, p). (p, k)) q) p = Some k \<longleftrightarrow> map_of q k = Some p"
proof -
  have d: "distinct (map fst (map (\<lambda>(k, p). (p, k)) q))"
    using assms(2) by (simp add: comp_def case_prod_beta)
  have "map_of (map (\<lambda>(k, p). (p, k)) q) p = Some k \<longleftrightarrow> (p, k) \<in> set (map (\<lambda>(k, p). (p, k)) q)"
    using d by simp
  also have "\<dots> \<longleftrightarrow> (k, p) \<in> set q" by force
  also have "\<dots> \<longleftrightarrow> map_of q k = Some p" using assms(1) by simp
  finally show ?thesis .
qed

text \<open>The two steps of \<open>sendChatMessage\<close> keep the queue consistent.\<close>

lemma consistent_call:
  assumes "consistent a"
  shows "consistent (snd (sendChatMessage_call caller request a))"
proof (cases "map_of (requestQueue (service a)) (requestKey_of request)")
  case (Some queued)
  then show ?thesis
    using assms by (simp add: requestKey_of_call consistent_def)
next
  case None
  let ?q = "requestQueue (service a)"
  have fresh_key: "requestKey_of request \<notin> fst ` set ?q"
    using None by (simp add: map_of_eq_None_iff)
  have below: "\<And>k p. (k, p) \<in> set ?q \<Longrightarrow> p < promises a"
    using assms by (auto simp: consistent_def list_all_iff)
  have fresh_promise: "promises a \<notin> snd ` set ?q"
    using below by force
  show ?thesis
    using None assms fresh_key fresh_promise
    by (auto simp: requestKey_of_call consistent_def list_all_iff less_Suc_eq)
qed

lemma consistent_settle:
  assumes "consistent a"
  shows "consistent (sendChatMessage_settle p result a)"
proof (cases "map_of (inFlight a) p")
  case None
  then show ?thesis using assms by (simp add: sendChatMessage_settle_def)
next
  case (Some k)
  let ?q = "requestQueue (service a)"
  have d: "distinct (map fst ?q)" "distinct (map snd ?q)"
    and fl: "inFlight a = map (\<lambda>(k, p). (p, k)) ?q"
    using assms by (simp_all add: consistent_def)
  have "map_of ?q k = Some p"
    using Some fl map_of_swapped [OF d] by simp
  then have mem: "(k, p) \<in> set ?q" by (rule map_of_SomeD)
  have "filter (\<lambda>(q, k). q \<noteq> p) (inFlight a) =
        map (\<lambda>(k, p). (p, k)) (filter (\<lambda>(k', p'). p' \<noteq> p) ?q)"
    by (simp add: fl filter_map comp_def case_prod_unfold)
  also have "\<dots> = map (\<lambda>(k, p). (p, k)) (map_delete k ?q)"
    using filter_key_value [OF d mem] by (simp add: map_delete_def)
  finally have fl': "filter (\<lambda>(q, k). q \<noteq> p) (inFlight a) =
        map (\<lambda>(k, p). (p, k)) (map_delete k ?q)" .
  have d': "distinct (map fst (map_delete k ?q))" "distinct (map snd (map_delete k ?q))"
    using d by (simp_all add: map_delete_def distinct_map_filter)
  have below: "list_all (\<lambda>(k, p). p < promises a) (map_delete k ?q)"
    using assms by (auto simp: consistent_def list_all_iff map_delete_def)
  show ?thesis
    using Some fl' d' below by (simp add: sendChatMessage_settle_def consistent_def)
qed

lemma consistent_step:
  assumes "consistent a" and "e \<noteq> Clear"
  shows "consistent (step e a)"
  using assms by (cases e) (simp_all add: consistent_call consistent_settle)

lemma consistent_run:
  assumes "consistent a" and "Clear \<notin> set es"
  shows "consistent (run es a)"
  using assms
proof (induction es arbitrary: a)
  case Nil
  then show ?case by simp
next
  case (Cons e es)
  then have "consistent (step e a)" using consistent_step [of a e] by auto
  then show ?case using Cons by simp
qed

text \<open>Every queue that calls and settlements make of the empty one is consistent.\<close>

lemma consistent_reachable:
  assumes "Clear \<notin> set es"
  shows "consistent (run es newAsync)"
proof -
  have "consistent newAsync"
    by (simp add: consistent_def newAsync_def newApiService_def)
  then show ?thesis using assms by (rule consistent_run)
qed

lemma leaves_not_Clear:
  assumes "leaves p e"
  shows "e \<noteq> Clear"
  using assms by (cases e) simp_all

lemma leaves_no_Clear:
  assumes "list_all (leaves p) es"
  shows "Clear \<notin> set es"
  using assms leaves_not_Clear by (auto simp: list_all_iff)


text \<open>What stays while promise \<open>p\<close> is not settled and the queue is not cleared.\<close>

lemma waiting_step:
  assumes "(c, p) \<in> set (waiting a)" and "leaves p e"
  shows "(c, p) \<in> set (waiting (step e a))"
proof (cases e)
  case (Call caller request)
  then show ?thesis
    using assms by (simp add: requestKey_of_call split: option.splits)
next
  case (Settle q result)
  then show ?thesis
    using assms by (simp add: sendChatMessage_settle_def split: option.splits)
next
  case Clear
  then show ?thesis using assms by simp
qed

lemma waiting_run:
  assumes "(c, p) \<in> set (waiting a)" and "list_all (leaves p) es"
  shows "(c, p) \<in> set (waiting (run es a))"
  using assms
proof (induction es arbitrary: a)
  case Nil
  then show ?case by simp
next
  case (Cons e es)
  then have "(c, p) \<in> set (waiting (step e a))" using waiting_step [of c p a e] by simp
  then show ?case using Cons by simp
qed

lemma map_of_map_delete:
  assumes "k' \<noteq> k"
  shows "map_of (map_delete k' q) k = map_of q k"
  using assms by (induction q) (auto simp: map_delete_def)

lemma queued_step:
  assumes "consistent a" and "map_of (requestQueue (service a)) k = Some p" and "leaves p e"
  shows "map_of (requestQueue (service (step e a))) k = Some p"
proof (cases e)
  case (Call caller request)
  then show ?thesis
    using assms by (simp add: requestKey_of_call split: option.splits)
next
  case (Settle q result)
  show ?thesis
  proof (cases "map_of (inFlight a) q")
    case None
    then show ?thesis using assms Settle by (simp add: sendChatMessage_settle_def)
  next
    case (Some k')
    let ?q = "requestQueue (service a)"
    have d: "distinct (map fst ?q)" "distinct (map snd ?q)"
      and fl: "inFlight a = map (\<lambda>(k, p). (p, k)) ?q"
      using assms(1) by (simp_all add: consistent_def)
    have "map_of ?q k' = Some q"
      using Some fl map_of_swapped [OF d] by simp
    moreover have "q \<noteq> p" using assms(3) Settle by simp
    ultimately have "k' \<noteq> k" using assms(2) by auto
    then have "map_of (map_delete k' ?q) k = map_of ?q k"
      by (rule map_of_map_delete)
    then show ?thesis
      using Some Settle assms(2) by (simp add: sendChatMessage_settle_def)
  qed
next
  case Clear
  then show ?thesis using assms by simp
qed

lemma queued_run:
  assumes "consistent a" and "map_of (requestQueue (service a)) k = Some p"
    and "list_all (leaves p) es"
  shows "map_of (requestQueue (service (run es a))) k = Some p"
  using assms
proof (induction es arbitrary: a)
  case Nil
  then show ?case by simp
next
  case (Cons e es)
  then have "consistent (step e a)"
    and "map_of (requestQueue (service (step e a))) k = Some p"
    using consistent_step [of a e] leaves_not_Clear [of p e] queued_step [of a k p e]
    by simp_all
  then show ?case using Cons by simp
qed

text \<open>After its call, an invocation waits for the promise queued under the key of its request.\<close>

lemma call_queued:
  "map_of (requestQueue (service (snd (sendChatMessage_call c request a))))
     (requestKey_of request) = Some (fst (sendChatMessage_call c request a))
 \<and> (c, fst (sendChatMessage_call c request a))
     \<in> set (waiting (snd (sendChatMessage_call c request a)))"
  by (simp add: requestKey_of_call map_add_def split: option.splits)

lemma call_joins:
  assumes "map_of (requestQueue (service a)) (requestKey_of request) = Some p"
  shows "fst (sendChatMessage_call c request a) = p
       \<and> promises (snd (sendChatMessage_call c request a)) = promises a
       \<and> inFlight (snd (sendChatMessage_call c request a)) = inFlight a"
  using assms by (simp add: requestKey_of_call)

lemma call_starts:
  assumes "map_of (requestQueue (service a)) (requestKey_of request) = None"
  shows "fst (sendChatMessage_call c request a) = promises a
       \<and> promises (snd (sendChatMessage_call c request a)) = Suc (promises a)"
  using assms by (simp add: requestKey_of_call)

lemma only_entry:
  assumes "distinct (map fst q)" and "(k, p) \<in> set q"
  shows "filter (\<lambda>(k', p'). k' = k) q = [(k, p)]"
  using assms
proof (induction q)
  case Nil
  then show ?case by simp
next
  case (Cons x q)
  obtain k' p' where x: "x = (k', p')" by (cases x)
  show ?case
  proof (cases "k' = k")
    case True
    then have "p' = p" using Cons.prems x by (auto simp: image_iff)
    moreover have "filter (\<lambda>(k', p'). k' = k) q = []"
      using Cons.prems x True by (auto simp: filter_empty_conv image_iff)
    ultimately show ?thesis using x True by simp
  next
    case False
    then show ?thesis using Cons x by auto
  qed
qed

lemma one_in_flight:
  assumes "consistent a" and "map_of (requestQueue (service a)) k = Some p"
  shows "filter (\<lambda>(p', k'). k' = k) (inFlight a) = [(p, k)]"
proof -
  let ?q = "requestQueue (service a)"
  have d: "distinct (map fst ?q)" and fl: "inFlight a = map (\<lambda>(k, p). (p, k)) ?q"
    using assms(1) by (simp_all add: consistent_def)
  have "(k, p) \<in> set ?q" using assms(2) by (rule map_of_SomeD)
  then have one: "filter (\<lambda>(k', p'). k' = k) ?q = [(k, p)]"
    using only_entry [OF d] by simp
  have "filter (\<lambda>(p', k'). k' = k) (inFlight a) =
        map (\<lambda>(k, p). (p, k)) (filter (\<lambda>(k', p'). k' = k) ?q)"
    by (simp add: fl filter_map comp_def case_prod_unfold)
  then show ?thesis using one by simp
qed

lemma settle_delivers:
  assumes "map_of (inFlight a) p = Some k" and "(c, p) \<in> set (waiting a)"
  shows "(c, result) \<in> set (delivered (sendChatMessage_settle p result a))"
  using assms by (force simp: sendChatMessage_settle_def)

lemma settle_deletes:
  assumes "map_of (inFlight a) p = Some k"
  shows "map_of (requestQueue (service (sendChatMessage_settle p result a))) k = None"
  using assms
  by (auto simp: sendChatMessage_settle_def map_delete_def map_of_eq_None_iff)


text \<open>
  Claim C2 (single flight) fails when \<open>clearRequestQueue\<close> is called between two
  concurrent calls with the same request: the queue has forgotten the first promise, the
  second call starts a second \<open>makeRequest\<close>, and two promises are in flight for one
  key.
\<close>

theorem single_flight_lost_by_clear:
  "promises (run [Call 1 hello, Clear, Call 2 hello] newAsync) = 2
 \<and> inFlight (run [Call 1 hello, Clear, Call 2 hello] newAsync) =
      [(0, requestKey_of hello), (1, requestKey_of hello)]
 \<and> fst (sendChatMessage_call 2 hello (run [Call 1 hello, Clear] newAsync)) = 1
 \<and> fst (sendChatMessage_call 1 hello newAsync) = 0"
  by code_simp

text \<open>
  Claim C2 as amended. Start from a consistent queue, as is the empty one and every
  queue that calls and settlements make of it. An invocation \<open>c1\<close> of
  \<open>sendChatMessage\<close> waits for a promise \<open>p\<close>. After any events \<open>es\<close> that neither settle
  \<open>p\<close> nor clear the queue, a second invocation \<open>c2\<close> with the same request calls
  \<open>makeRequest\<close> no more: it waits for the same \<open>p\<close>, and \<open>p\<close> is the one promise in flight
  for the key. After any further such events \<open>es'\<close>, the settlement of \<open>p\<close> with
  \<open>result\<close>, a value or an error, delivers \<open>result\<close> to both invocations and removes the
  key from the queue, so that the next invocation with the same request starts a new
  \<open>makeRequest\<close>.
\<close>

theorem single_flight:
  assumes "consistent a"
    and "p = fst (sendChatMessage_call c1 request a)"
    and "list_all (leaves p) es" and "list_all (leaves p) es'"
    and "a1 = run es (snd (sendChatMessage_call c1 request a))"
    and "a2 = run es' (snd (sendChatMessage_call c2 request a1))"
    and "a3 = sendChatMessage_settle p result a2"
  shows "fst (sendChatMessage_call c2 request a1) = p
       \<and> promises (snd (sendChatMessage_call c2 request a1)) = promises a1
       \<and> filter (\<lambda>(p', k'). k' = requestKey_of request)
            (inFlight (snd (sendChatMessage_call c2 request a1))) = [(p, requestKey_of request)]
       \<and> (c1, result) \<in> set (delivered a3)
       \<and> (c2, result) \<in> set (delivered a3)
       \<and> map_of (requestQueue (service a3)) (requestKey_of request) = None
       \<and> fst (sendChatMessage_call c3 request a3) = promises a3
       \<and> promises (snd (sendChatMessage_call c3 request a3)) = Suc (promises a3)"
proof -
  let ?k = "requestKey_of request"
  let ?b1 = "snd (sendChatMessage_call c1 request a)"
  let ?b2 = "snd (sendChatMessage_call c2 request a1)"
  have b1: "consistent ?b1" using assms(1) by (rule consistent_call)
  have q1: "map_of (requestQueue (service ?b1)) ?k = Some p"
    and w1: "(c1, p) \<in> set (waiting ?b1)"
    using call_queued [of c1 request a] assms(2) by simp_all
  have a1c: "consistent a1"
    using b1 assms(5) leaves_no_Clear [OF assms(3)] consistent_run by blast
  have a1q: "map_of (requestQueue (service a1)) ?k = Some p"
    using b1 q1 assms(3,5) queued_run by blast
  have a1w: "(c1, p) \<in> set (waiting a1)"
    using w1 assms(3,5) waiting_run by blast
  have joins: "fst (sendChatMessage_call c2 request a1) = p"
    "promises ?b2 = promises a1"
    using call_joins [OF a1q, of c2] by simp_all
  have b2: "consistent ?b2" using a1c by (rule consistent_call)
  have q2: "map_of (requestQueue (service ?b2)) ?k = Some p"
    and w2: "(c2, p) \<in> set (waiting ?b2)"
    using call_queued [of c2 request a1] joins(1) by simp_all
  have w12: "(c1, p) \<in> set (waiting ?b2)"
    using waiting_step [OF a1w, of "Call c2 request"] by simp
  have one: "filter (\<lambda>(p', k'). k' = ?k) (inFlight ?b2) = [(p, ?k)]"
    using one_in_flight [OF b2 q2] .
  have a2c: "consistent a2"
    using b2 assms(6) leaves_no_Clear [OF assms(4)] consistent_run by blast
  have a2q: "map_of (requestQueue (service a2)) ?k = Some p"
    using b2 q2 assms(4,6) queued_run by blast
  have a2w: "(c1, p) \<in> set (waiting a2)" "(c2, p) \<in> set (waiting a2)"
    using w12 w2 assms(4,6) waiting_run by blast+
  have fl: "map_of (inFlight a2) p = Some ?k"
    using a2c a2q map_of_swapped [of "requestQueue (service a2)" p ?k]
    by (simp add: consistent_def)
  have d1: "(c1, result) \<in> set (delivered a3)" and d2: "(c2, result) \<in> set (delivered a3)"
    using settle_delivers [OF fl] a2w assms(7) by simp_all
  have gone: "map_of (requestQueue (service a3)) ?k = None"
    using settle_deletes [OF fl] assms(7) by simp
  have again: "fst (sendChatMessage_call c3 request a3) = promises a3"
    "promises (snd (sendChatMessage_call c3 request a3)) = Suc (promises a3)"
    using call_starts [OF gone, of c3] by simp_all
  show ?thesis
    using joins one d1 d2 gone again by simp
qed

text \<open>
  A run from the empty queue: \<open>hello\<close> is sent by invocation 1, another request is sent
  and settled, \<open>hello\<close> is sent again by invocation 2, and promise 0 settles.
\<close>

theorem single_flight_witness:
  "consistent newAsync
 \<and> fst (sendChatMessage_call 1 hello newAsync) = 0
 \<and> fst (sendChatMessage_call 2 hello
      (run [Call 7 bye, Settle 1 (Inr [])] (snd (sendChatMessage_call 1 hello newAsync)))) = 0
 \<and> promises (run [Call 1 hello, Call 7 bye, Settle 1 (Inr []), Call 2 hello] newAsync) = 2
 \<and> delivered (run [Call 1 hello, Call 7 bye, Settle 1 (Inr []), Call 2 hello, Call 8 bye,
      Settle 0 greeting] newAsync) = [(7, Inr []), (1, greeting), (2, greeting)]
 \<and> map_of (requestQueue (service
      (run [Call 1 hello, Call 7 bye, Settle 1 (Inr []), Call 2 hello, Call 8 bye,
        Settle 0 greeting] newAsync))) (requestKey_of hello) = None
 \<and> promises (run [Call 1 hello, Call 7 bye, Settle 1 (Inr []), Call 2 hello, Call 8 bye,
      Settle 0 greeting, Call 3 hello] newAsync) = 4"
proof -
  have c: "consistent newAsync" by code_simp
  have p: "(0::nat) = fst (sendChatMessage_call 1 hello newAsync)" by code_simp
  have l: "list_all (leaves 0) [Call 7 bye, Settle 1 (Inr [])]"
    and l': "list_all (leaves 0) [Call 8 bye]" by simp_all
  note inst = single_flight [OF c p l l' refl refl refl, of 2 greeting 3]
  have first: "fst (sendChatMessage_call 2 hello
      (run [Call 7 bye, Settle 1 (Inr [])] (snd (sendChatMessage_call 1 hello newAsync)))) = 0"
    using inst by simp
  have rest: "promises (run [Call 1 hello, Call 7 bye, Settle 1 (Inr []), Call 2 hello] newAsync) = 2
   \<and> delivered (run [Call 1 hello, Call 7 bye, Settle 1 (Inr []), Call 2 hello, Call 8 bye,
        Settle 0 greeting] newAsync) = [(7, Inr []), (1, greeting), (2, greeting)]
   \<and> map_of (requestQueue (service
        (run [Call 1 hello, Call 7 bye, Settle 1 (Inr []), Call 2 hello, Call 8 bye,
          Settle 0 greeting] newAsync))) (requestKey_of hello) = None
   \<and> promises (run [Call 1 hello, Call 7 bye, Settle 1 (Inr []), Call 2 hello, Call 8 bye,
        Settle 0 greeting, Call 3 hello] newAsync) = 4"
    by code_simp
  show ?thesis using c p first rest by simp
qed

end
